theory Spec2Isabelle
  imports Complex_Main
begin

section \<open>Values\<close>

text \<open>
  The script \<^verbatim>\<open>main.py\<close> is the training driver of an AWD-LSTM language model.  It is
  embedded as a state transformer over the script's global variables, the optimizer's
  learning rate, the files it writes and a log of the calls it makes into the numeric
  library and into the model (\<^verbatim>\<open>layers.py\<close>), which are parameters of the embedding.

  A Python float or a zero-dimensional tensor is a real number or one of the IEEE special
  values.  Finite arithmetic is exact: rounding and overflow of finite values are not
  modelled.
\<close>

datatype exn = KeyboardInterrupt | ZeroDivisionError | IndexError | ValueError | OtherError

datatype fl = Num real | PInf | NInf | NaN

fun fadd :: "fl \<Rightarrow> fl \<Rightarrow> fl" where
  "fadd (Num a) (Num b) = Num (a + b)"
| "fadd NaN _ = NaN"
| "fadd _ NaN = NaN"
| "fadd PInf NInf = NaN"
| "fadd NInf PInf = NaN"
| "fadd PInf _ = PInf"
| "fadd _ PInf = PInf"
| "fadd NInf _ = NInf"
| "fadd _ NInf = NInf"

text \<open>\<^verbatim>\<open>a * t\<close> for a finite Python float \<open>a\<close> and a zero-dimensional tensor \<open>t\<close>.\<close>

fun fscale :: "real \<Rightarrow> fl \<Rightarrow> fl" where
  "fscale a (Num b) = Num (a * b)"
| "fscale a NaN = NaN"
| "fscale a PInf = (if 0 < a then PInf else if a < 0 then NInf else NaN)"
| "fscale a NInf = (if 0 < a then NInf else if a < 0 then PInf else NaN)"

text \<open>\<^verbatim>\<open>v / n\<close> for a Python float \<open>v\<close> and a length \<open>n\<close>: Python raises on a zero divisor.\<close>

fun fdiv_len :: "fl \<Rightarrow> nat \<Rightarrow> exn + fl" where
  "fdiv_len v 0 = Inl ZeroDivisionError"
| "fdiv_len (Num a) n = Inr (Num (a / real n))"
| "fdiv_len v n = Inr v"

text \<open>\<^verbatim>\<open>a < b\<close> on floats: false whenever an operand is NaN.\<close>

fun flt :: "fl \<Rightarrow> fl \<Rightarrow> bool" where
  "flt (Num a) (Num b) = (a < b)"
| "flt NaN _ = False"
| "flt _ NaN = False"
| "flt _ NInf = False"
| "flt PInf _ = False"
| "flt NInf _ = True"
| "flt _ PInf = True"

text \<open>
  A layer output of shape (time, batch, features) is a list of time steps, each the
  flattened (batch, features) slice; all rows of a tensor have the same length.
  \<^verbatim>\<open>t.pow(2).mean()\<close> is NaN on a tensor without elements.
\<close>

type_synonym tensor = "real list list"

definition pow2_mean :: "tensor \<Rightarrow> fl" where
  "pow2_mean t =
     (let xs = concat t
      in if xs = [] then NaN else Num (sum_list (map (\<lambda>v. v * v) xs) / real (length xs)))"

text \<open>\<^verbatim>\<open>t[1:] - t[:-1]\<close>\<close>

definition time_diff :: "tensor \<Rightarrow> tensor" where
  "time_diff t = map2 (map2 (-)) (tl t) (butlast t)"

text \<open>\<^verbatim>\<open>xs[-1]\<close> on a Python list raises IndexError when the list is empty.\<close>

definition last_item :: "'a list \<Rightarrow> exn + 'a" where
  "last_item xs = (if xs = [] then Inl IndexError else Inr (last xs))"

section \<open>Configuration, collaborators and state\<close>

record args =
  bs :: int
  eval_bs :: int
  bptt :: int
  use_var_bptt :: bool
  emb_dim :: int
  hidden_dim :: int
  num_layers :: int
  emb_dp :: real
  hidden_dp :: real
  input_dp :: real
  weight_dp :: real
  out_dp :: real
  lr :: int
  anneal_factor :: real
  initrange :: real
  tie_weights :: bool
  epochs :: int
  clip :: real
  alpha :: real
  beta :: real

text \<open>A batch is a pair of the input token matrix (one row per time step) and the flat targets.\<close>

type_synonym batch = "int list list \<times> int list"

text \<open>
  A loader is iterated once per pass and asked for its length; \<open>iter k\<close> is what its
  \<open>k\<close>-th iteration yields (a variable-length loader draws new windows each time).
\<close>

record loader =
  iter :: "nat \<Rightarrow> batch list"
  len :: nat

text \<open>What \<^verbatim>\<open>model(x, return_states=True)\<close> returns (the returned hidden state is not used).\<close>

record fwd =
  f_out :: tensor
  f_raw_out :: "tensor list"
  f_dropped_out :: "tensor list"

text \<open>
  The model, the loss function and the optimizer are collaborators: \<open>'m\<close> is everything
  they own (parameters, gradients, hidden state, mode), \<open>'p\<close> a \<^verbatim>\<open>state_dict\<close>.
\<close>

record ('m, 'p) backend =
  train_mode :: "'m \<Rightarrow> 'm"
  eval_mode :: "'m \<Rightarrow> 'm"
  reset_hidden :: "'m \<Rightarrow> 'm"
  forward :: "bool \<Rightarrow> 'm \<Rightarrow> int list list \<Rightarrow> fwd \<times> 'm"
  criterion :: "tensor \<Rightarrow> int list \<Rightarrow> fl"
  zero_grad :: "'m \<Rightarrow> 'm"
  backward :: "fl \<Rightarrow> 'm \<Rightarrow> 'm"
  clip_grad_norm :: "real \<Rightarrow> 'm \<Rightarrow> 'm"
  opt_step :: "real \<Rightarrow> 'm \<Rightarrow> 'm"
  state_dict :: "'m \<Rightarrow> 'p"

datatype event =
    EvTrainMode
  | EvEvalMode
  | EvResetHidden
  | EvSetLR real
  | EvForward bool bool "int list list"
  | EvZeroGrad
  | EvBackward fl
  | EvClip real
  | EvStep real
  | EvSave int
  | EvPrintEpoch int fl fl real
  | EvPrintExit
  | EvPrintTest fl

text \<open>
  The state: the script's globals, the optimizer's learning rate
  (\<^verbatim>\<open>optimizer.param_groups[0]['lr']\<close>), the autograd switch, a store of the scalar loss
  tensors (variables \<open>raw_loss\<close> and \<open>loss\<close> hold references into it), the three output
  files, the log of calls, and \<open>ticks\<close>: the number of statements that still run before
  the user's interrupt arrives (\<open>None\<close>: no interrupt).
\<close>

record ('m, 'p) state =
  model :: 'm
  opt_lr :: real
  grad_enabled :: bool
  best_loss :: fl
  best_epoch :: int
  train_losses :: "fl list"
  valid_losses :: "fl list"
  train_loss :: fl
  valid_loss :: fl
  test_loss :: fl
  cur_lr :: real
  seq_len :: nat
  var_x :: "int list list"
  var_y :: "int list"
  var_out :: tensor
  var_raw_out :: "tensor list"
  var_dropped_out :: "tensor list"
  heap :: "fl list"
  raw_loss :: nat
  loss :: nat
  pth_file :: "'p option"
  csv_file :: "(fl list \<times> fl list) option"
  txt_file :: "(fl \<times> int \<times> fl) option"
  trace :: "event list"
  ticks :: "nat option"

section \<open>Statements\<close>

type_synonym ('m, 'p) prog = "('m, 'p) state \<Rightarrow> exn option \<times> ('m, 'p) state"

text \<open>An exception leaves the state as it is when it is raised.\<close>

definition tick :: "('m, 'p) prog" where
  "tick s =
     (case ticks s of
        None \<Rightarrow> (None, s)
      | Some 0 \<Rightarrow> (Some KeyboardInterrupt, s\<lparr>ticks := None\<rparr>)
      | Some (Suc n) \<Rightarrow> (None, s\<lparr>ticks := Some n\<rparr>))"

definition upd :: "(('m, 'p) state \<Rightarrow> ('m, 'p) state) \<Rightarrow> ('m, 'p) prog" where
  "upd f s = (None, f s)"

definition attempt :: "(('m, 'p) state \<Rightarrow> exn + ('m, 'p) state) \<Rightarrow> ('m, 'p) prog" where
  "attempt f s = (case f s of Inl e \<Rightarrow> (Some e, s) | Inr s' \<Rightarrow> (None, s'))"

definition seq :: "('m, 'p) prog \<Rightarrow> ('m, 'p) prog \<Rightarrow> ('m, 'p) prog" where
  "seq p q s = (case p s of (None, s') \<Rightarrow> q s' | (Some e, s') \<Rightarrow> (Some e, s'))"

text \<open>A block of statements: the interrupt can arrive before each of them.\<close>

fun block :: "('m, 'p) prog list \<Rightarrow> ('m, 'p) prog" where
  "block [] s = (None, s)"
| "block (p # ps) s = seq tick (seq p (block ps)) s"

definition cond :: "bool \<Rightarrow> ('m, 'p) prog \<Rightarrow> ('m, 'p) prog \<Rightarrow> ('m, 'p) prog" where
  "cond b p q = (if b then p else q)"

definition if_then :: "bool \<Rightarrow> ('m, 'p) prog \<Rightarrow> ('m, 'p) prog" where
  "if_then b p = cond b p (block [])"

fun foreach :: "'a list \<Rightarrow> ('a \<Rightarrow> ('m, 'p) prog) \<Rightarrow> ('m, 'p) prog" where
  "foreach [] body s = (None, s)"
| "foreach (x # xs) body s = seq (body x) (foreach xs body) s"

text \<open>\<^verbatim>\<open>with torch.no_grad():\<close> switches autograd off and restores it on every exit.\<close>

definition with_no_grad :: "('m, 'p) prog \<Rightarrow> ('m, 'p) prog" where
  "with_no_grad p s =
     (let prev = grad_enabled s;
          (r, s') = p (s\<lparr>grad_enabled := False\<rparr>)
      in (r, s'\<lparr>grad_enabled := prev\<rparr>))"

definition emit :: "event \<Rightarrow> ('m, 'p) state \<Rightarrow> ('m, 'p) state" where
  "emit ev s = s\<lparr>trace := trace s @ [ev]\<rparr>"

section \<open>The loss tensors\<close>

text \<open>
  \<^verbatim>\<open>loss = raw_loss\<close> binds a second name to the same tensor, and \<^verbatim>\<open>loss += v\<close> on a
  tensor is the in-place \<^verbatim>\<open>add_\<close>: it changes the tensor both names refer to.
\<close>

definition alloc :: "fl \<Rightarrow> fl list \<Rightarrow> nat \<times> fl list" where
  "alloc v h = (length h, h @ [v])"

definition iadd :: "nat \<Rightarrow> fl \<Rightarrow> fl list \<Rightarrow> fl list" where
  "iadd r v h = h[r := fadd (h ! r) v]"

definition item :: "nat \<Rightarrow> fl list \<Rightarrow> fl" where
  "item r h = h ! r"

section \<open>The training pass (lines 107 to 141)\<close>

text \<open>\<^verbatim>\<open>optimizer.param_groups[0]['lr'] = args.lr * seq_len / args.bptt\<close>\<close>

definition rescale_lr :: "args \<Rightarrow> ('m, 'p) state \<Rightarrow> exn + ('m, 'p) state" where
  "rescale_lr a s =
     (if bptt a = 0 then Inl ZeroDivisionError
      else let r = real_of_int (lr a * int (seq_len s)) / real_of_int (bptt a)
           in Inr (emit (EvSetLR r) (s\<lparr>opt_lr := r\<rparr>)))"

text \<open>\<^verbatim>\<open>optimizer.param_groups[0]['lr'] = args.lr\<close>\<close>

definition restore_lr :: "args \<Rightarrow> ('m, 'p) state \<Rightarrow> ('m, 'p) state" where
  "restore_lr a s = emit (EvSetLR (real_of_int (lr a))) (s\<lparr>opt_lr := real_of_int (lr a)\<rparr>)"

text \<open>\<^verbatim>\<open>out, hidden, raw_out, dropped_out = model(x, return_states=True)\<close>\<close>

definition call_model_states :: "('m, 'p) backend \<Rightarrow> ('m, 'p) state \<Rightarrow> ('m, 'p) state" where
  "call_model_states be s =
     (let (r, m) = forward be (grad_enabled s) (model s) (var_x s)
      in emit (EvForward True (grad_enabled s) (var_x s))
           (s\<lparr>model := m, var_out := f_out r, var_raw_out := f_raw_out r,
               var_dropped_out := f_dropped_out r\<rparr>))"

text \<open>\<^verbatim>\<open>raw_loss = criterion(out.view(-1, vocab_sz), y)\<close>\<close>

definition new_raw_loss :: "('m, 'p) backend \<Rightarrow> ('m, 'p) state \<Rightarrow> ('m, 'p) state" where
  "new_raw_loss be s =
     (let (r, h) = alloc (criterion be (var_out s) (var_y s)) (heap s)
      in s\<lparr>heap := h, raw_loss := r\<rparr>)"

text \<open>\<^verbatim>\<open>loss += args.alpha * dropped_out[-1].pow(2).mean()\<close>\<close>

definition add_ar :: "args \<Rightarrow> ('m, 'p) state \<Rightarrow> exn + ('m, 'p) state" where
  "add_ar a s =
     (case last_item (var_dropped_out s) of
        Inl e \<Rightarrow> Inl e
      | Inr d \<Rightarrow> Inr (s\<lparr>heap := iadd (loss s) (fscale (alpha a) (pow2_mean d)) (heap s)\<rparr>))"

text \<open>\<^verbatim>\<open>loss += args.beta * (raw_out[-1][1:] - raw_out[-1][:-1]).pow(2).mean()\<close>\<close>

definition add_tar :: "args \<Rightarrow> ('m, 'p) state \<Rightarrow> exn + ('m, 'p) state" where
  "add_tar a s =
     (case last_item (var_raw_out s) of
        Inl e \<Rightarrow> Inl e
      | Inr r \<Rightarrow>
          Inr (s\<lparr>heap := iadd (loss s) (fscale (beta a) (pow2_mean (time_diff r))) (heap s)\<rparr>))"

definition do_zero_grad :: "('m, 'p) backend \<Rightarrow> ('m, 'p) state \<Rightarrow> ('m, 'p) state" where
  "do_zero_grad be s = emit EvZeroGrad (s\<lparr>model := zero_grad be (model s)\<rparr>)"

text \<open>\<^verbatim>\<open>loss.backward()\<close>\<close>

definition do_backward :: "('m, 'p) backend \<Rightarrow> ('m, 'p) state \<Rightarrow> ('m, 'p) state" where
  "do_backward be s =
     (let v = item (loss s) (heap s)
      in emit (EvBackward v) (s\<lparr>model := backward be v (model s)\<rparr>))"

definition do_clip :: "args \<Rightarrow> ('m, 'p) backend \<Rightarrow> ('m, 'p) state \<Rightarrow> ('m, 'p) state" where
  "do_clip a be s = emit (EvClip (clip a)) (s\<lparr>model := clip_grad_norm be (clip a) (model s)\<rparr>)"

text \<open>\<^verbatim>\<open>optimizer.step()\<close> reads the learning rate the optimizer holds at that moment.\<close>

definition do_step :: "('m, 'p) backend \<Rightarrow> ('m, 'p) state \<Rightarrow> ('m, 'p) state" where
  "do_step be s = emit (EvStep (opt_lr s)) (s\<lparr>model := opt_step be (opt_lr s) (model s)\<rparr>)"

text \<open>
  The body of the training loop.  The transfers \<^verbatim>\<open>x.to(device)\<close> and \<^verbatim>\<open>y.to(device)\<close>
  change nothing that is modelled and are left out.
\<close>

definition train_batch :: "args \<Rightarrow> ('m, 'p) backend \<Rightarrow> batch \<Rightarrow> ('m, 'p) prog" where
  "train_batch a be b =
     block
      [upd (\<lambda>s. s\<lparr>var_x := fst b, var_y := snd b\<rparr>),
       if_then (use_var_bptt a)
         (block [upd (\<lambda>s. s\<lparr>seq_len := length (var_x s)\<rparr>), attempt (rescale_lr a)]),
       upd (call_model_states be),
       upd (new_raw_loss be),
       upd (\<lambda>s. s\<lparr>loss := raw_loss s\<rparr>),
       attempt (add_ar a),
       attempt (add_tar a),
       upd (do_zero_grad be),
       upd (do_backward be),
       upd (do_clip a be),
       upd (do_step be),
       if_then (use_var_bptt a) (block [upd (restore_lr a)]),
       upd (\<lambda>s. s\<lparr>train_loss := fadd (train_loss s) (item (raw_loss s) (heap s))\<rparr>)]"

definition train_pass :: "args \<Rightarrow> ('m, 'p) backend \<Rightarrow> loader \<Rightarrow> nat \<Rightarrow> ('m, 'p) prog" where
  "train_pass a be ld k =
     block
      [upd (\<lambda>s. emit EvTrainMode (s\<lparr>model := train_mode be (model s)\<rparr>)),
       upd (\<lambda>s. emit EvResetHidden (s\<lparr>model := reset_hidden be (model s)\<rparr>)),
       upd (\<lambda>s. s\<lparr>train_loss := Num 0\<rparr>),
       foreach (iter ld k) (train_batch a be),
       attempt (\<lambda>s. case fdiv_len (train_loss s) (len ld) of
                       Inl e \<Rightarrow> Inl e | Inr v \<Rightarrow> Inr (s\<lparr>train_loss := v\<rparr>)),
       upd (\<lambda>s. s\<lparr>train_losses := train_losses s @ [train_loss s]\<rparr>)]"

section \<open>The evaluation passes (lines 143 to 157 and 177 to 193)\<close>

text \<open>\<^verbatim>\<open>out = model(x)\<close>\<close>

definition call_model :: "('m, 'p) backend \<Rightarrow> ('m, 'p) state \<Rightarrow> ('m, 'p) state" where
  "call_model be s =
     (let (r, m) = forward be (grad_enabled s) (model s) (var_x s)
      in emit (EvForward False (grad_enabled s) (var_x s)) (s\<lparr>model := m, var_out := f_out r\<rparr>))"

text \<open>\<^verbatim>\<open>loss = criterion(out.view(-1, vocab_sz), y)\<close>\<close>

definition new_loss :: "('m, 'p) backend \<Rightarrow> ('m, 'p) state \<Rightarrow> ('m, 'p) state" where
  "new_loss be s =
     (let (r, h) = alloc (criterion be (var_out s) (var_y s)) (heap s)
      in s\<lparr>heap := h, loss := r\<rparr>)"

definition valid_batch :: "('m, 'p) backend \<Rightarrow> batch \<Rightarrow> ('m, 'p) prog" where
  "valid_batch be b =
     block
      [with_no_grad
         (block
           [upd (\<lambda>s. s\<lparr>var_x := fst b, var_y := snd b\<rparr>),
            upd (call_model be),
            upd (new_loss be),
            upd (\<lambda>s. s\<lparr>valid_loss := fadd (valid_loss s) (item (loss s) (heap s))\<rparr>)])]"

definition valid_pass :: "('m, 'p) backend \<Rightarrow> loader \<Rightarrow> nat \<Rightarrow> ('m, 'p) prog" where
  "valid_pass be ld k =
     block
      [upd (\<lambda>s. emit EvEvalMode (s\<lparr>model := eval_mode be (model s)\<rparr>)),
       upd (\<lambda>s. emit EvResetHidden (s\<lparr>model := reset_hidden be (model s)\<rparr>)),
       upd (\<lambda>s. s\<lparr>valid_loss := Num 0\<rparr>),
       foreach (iter ld k) (valid_batch be),
       attempt (\<lambda>s. case fdiv_len (valid_loss s) (len ld) of
                       Inl e \<Rightarrow> Inl e | Inr v \<Rightarrow> Inr (s\<lparr>valid_loss := v\<rparr>)),
       upd (\<lambda>s. s\<lparr>valid_losses := valid_losses s @ [valid_loss s]\<rparr>)]"

definition test_batch :: "('m, 'p) backend \<Rightarrow> batch \<Rightarrow> ('m, 'p) prog" where
  "test_batch be b =
     block
      [with_no_grad
         (block
           [upd (\<lambda>s. s\<lparr>var_x := fst b, var_y := snd b\<rparr>),
            upd (call_model be),
            upd (new_loss be),
            upd (\<lambda>s. s\<lparr>test_loss := fadd (test_loss s) (item (loss s) (heap s))\<rparr>)])]"

definition test_pass :: "('m, 'p) backend \<Rightarrow> loader \<Rightarrow> ('m, 'p) prog" where
  "test_pass be ld =
     block
      [upd (\<lambda>s. emit EvEvalMode (s\<lparr>model := eval_mode be (model s)\<rparr>)),
       upd (\<lambda>s. emit EvResetHidden (s\<lparr>model := reset_hidden be (model s)\<rparr>)),
       upd (\<lambda>s. s\<lparr>test_loss := Num 0\<rparr>),
       foreach (iter ld 0) (test_batch be),
       attempt (\<lambda>s. case fdiv_len (test_loss s) (len ld) of
                       Inl e \<Rightarrow> Inl e | Inr v \<Rightarrow> Inr (s\<lparr>test_loss := v\<rparr>)),
       upd (\<lambda>s. emit (EvPrintTest (test_loss s)) s)]"

section \<open>Checkpoint and annealing (lines 159 to 171)\<close>

text \<open>\<^verbatim>\<open>optimizer.param_groups[0]['lr'] /= args.anneal_factor\<close>\<close>

definition anneal_lr :: "args \<Rightarrow> ('m, 'p) state \<Rightarrow> exn + ('m, 'p) state" where
  "anneal_lr a s =
     (if anneal_factor a = 0 then Inl ZeroDivisionError
      else let r = opt_lr s / anneal_factor a in Inr (emit (EvSetLR r) (s\<lparr>opt_lr := r\<rparr>)))"

text \<open>\<^verbatim>\<open>torch.save(model.state_dict(), f)\<close> on the checkpoint file.\<close>

definition save_model :: "('m, 'p) backend \<Rightarrow> int \<Rightarrow> ('m, 'p) state \<Rightarrow> ('m, 'p) state" where
  "save_model be e s = emit (EvSave e) (s\<lparr>pth_file := Some (state_dict be (model s))\<rparr>)"

definition epoch_end :: "args \<Rightarrow> ('m, 'p) backend \<Rightarrow> int \<Rightarrow> ('m, 'p) prog" where
  "epoch_end a be e =
     block
      [(\<lambda>s. cond (flt (valid_loss s) (best_loss s))
               (block
                 [upd (\<lambda>s. s\<lparr>best_loss := valid_loss s\<rparr>),
                  upd (\<lambda>s. s\<lparr>best_epoch := e\<rparr>),
                  upd (save_model be e)])
               (block [if_then (\<not> use_var_bptt a) (block [attempt (anneal_lr a)])]) s),
       upd (\<lambda>s. s\<lparr>cur_lr := opt_lr s\<rparr>),
       upd (\<lambda>s. emit (EvPrintEpoch e (train_loss s) (valid_loss s) (cur_lr s)) s)]"

section \<open>The script from the epoch loop on (lines 105 to 199)\<close>

definition epoch :: "args \<Rightarrow> ('m, 'p) backend \<Rightarrow> loader \<Rightarrow> loader \<Rightarrow> int \<Rightarrow> ('m, 'p) prog" where
  "epoch a be trn vld e =
     seq (train_pass a be trn (nat (e - 1)))
       (seq (valid_pass be vld (nat (e - 1))) (epoch_end a be e))"

text \<open>\<^verbatim>\<open>for e in range(1, args.epochs + 1)\<close>\<close>

definition epoch_loop :: "args \<Rightarrow> ('m, 'p) backend \<Rightarrow> loader \<Rightarrow> loader \<Rightarrow> ('m, 'p) prog" where
  "epoch_loop a be trn vld = foreach [1 .. epochs a] (epoch a be trn vld)"

text \<open>\<^verbatim>\<open>try: ... except KeyboardInterrupt: print("Exiting training early")\<close>\<close>

definition try_except :: "('m, 'p) prog \<Rightarrow> ('m, 'p) prog" where
  "try_except p s =
     (case p s of
        (Some KeyboardInterrupt, s') \<Rightarrow> block [upd (emit EvPrintExit)] s'
      | r \<Rightarrow> r)"

text \<open>
  \<^verbatim>\<open>pd.DataFrame(data={'train': train_losses, 'valid': valid_losses})\<close> raises ValueError
  when the two lists differ in length; the summary file is written after the CSV file.
\<close>

definition write_csv :: "('m, 'p) state \<Rightarrow> exn + ('m, 'p) state" where
  "write_csv s =
     (if length (train_losses s) \<noteq> length (valid_losses s) then Inl ValueError
      else Inr (s\<lparr>csv_file := Some (train_losses s, valid_losses s)\<rparr>))"

definition save_outputs :: "('m, 'p) prog" where
  "save_outputs =
     block
      [attempt write_csv,
       upd (\<lambda>s. s\<lparr>txt_file := Some (best_loss s, best_epoch s, test_loss s)\<rparr>)]"

definition main :: "args \<Rightarrow> ('m, 'p) backend \<Rightarrow> loader \<Rightarrow> loader \<Rightarrow> loader \<Rightarrow> ('m, 'p) prog" where
  "main a be trn vld tst =
     seq (try_except (epoch_loop a be trn vld)) (seq (test_pass be tst) save_outputs)"

text \<open>The state when the epoch loop is entered (lines 93 to 101).\<close>

definition init_state :: "args \<Rightarrow> 'm \<Rightarrow> nat option \<Rightarrow> ('m, 'p) state" where
  "init_state a m t =
     \<lparr>model = m, opt_lr = real_of_int (lr a), grad_enabled = True, best_loss = PInf,
      best_epoch = 0, train_losses = [], valid_losses = [], train_loss = Num 0,
      valid_loss = Num 0, test_loss = Num 0, cur_lr = 0, seq_len = 0, var_x = [], var_y = [],
      var_out = [], var_raw_out = [], var_dropped_out = [], heap = [], raw_loss = 0, loss = 0,
      pth_file = None, csv_file = None, txt_file = None, trace = [], ticks = t\<rparr>"

section \<open>Specification-side notions\<close>

text \<open>
  The loss of the spec: raw cross-entropy, plus alpha times the mean square of the last
  layer's dropped output, plus beta times the mean squared difference of consecutive time
  steps of the last layer's raw output.
\<close>

definition spec_loss :: "args \<Rightarrow> ('m, 'p) backend \<Rightarrow> fwd \<Rightarrow> int list \<Rightarrow> fl" where
  "spec_loss a be r y =
     fadd (fadd (criterion be (f_out r) y)
                (fscale (alpha a) (pow2_mean (last (f_dropped_out r)))))
          (fscale (beta a) (pow2_mean (time_diff (last (f_raw_out r)))))"

text \<open>The learning rate of the spec for a window: base rate times L / B in variable mode.\<close>

definition window_lr :: "args \<Rightarrow> ('m, 'p) state \<Rightarrow> batch \<Rightarrow> real" where
  "window_lr a s b =
     (if use_var_bptt a then real_of_int (lr a) * real (length (fst b)) / real_of_int (bptt a)
      else opt_lr s)"

text \<open>The lowest of a list of validation losses under \<open><\<close>, from infinity.\<close>

definition best_so_far :: "fl list \<Rightarrow> fl" where
  "best_so_far vs = foldl (\<lambda>b v. if flt v b then v else b) PInf vs"

text \<open>
  An evaluation pass over a list of batches as a fold: the sum of the raw cross-entropies
  (from \<open>acc\<close>) and the model state, which each forward call hands to the next.
\<close>

fun eval_sum :: "('m, 'p) backend \<Rightarrow> 'm \<Rightarrow> fl \<Rightarrow> batch list \<Rightarrow> fl \<times> 'm" where
  "eval_sum be m acc [] = (acc, m)"
| "eval_sum be m acc (b # bts) =
     (let (r, m') = forward be False m (fst b)
      in eval_sum be m' (fadd acc (criterion be (f_out r) (snd b))) bts)"

text \<open>The model returns at least one layer in both lists of layer outputs.\<close>

definition has_layers :: "('m, 'p) backend \<Rightarrow> bool" where
  "has_layers be \<longleftrightarrow>
     (\<forall>g m x. f_raw_out (fst (forward be g m x)) \<noteq> [] \<and> f_dropped_out (fst (forward be g m x)) \<noteq> [])"

text \<open>
  A training pass over a list of batches as a fold: what the loop adds up in
  \<open>train_loss\<close> (from \<open>acc\<close>) and the model state, which each window hands to the next;
  \<open>r\<close> is the learning rate the optimizer holds when the pass starts.
\<close>

fun train_sum :: "args \<Rightarrow> ('m, 'p) backend \<Rightarrow> real \<Rightarrow> 'm \<Rightarrow> fl \<Rightarrow> batch list \<Rightarrow> fl \<times> 'm" where
  "train_sum a be r m acc [] = (acc, m)"
| "train_sum a be r m acc (b # bts) =
     (let (f, m1) = forward be True m (fst b);
          v = spec_loss a be f (snd b);
          rate = (if use_var_bptt a
                  then real_of_int (lr a) * real (length (fst b)) / real_of_int (bptt a) else r);
          m2 = opt_step be rate (clip_grad_norm be (clip a) (backward be v (zero_grad be m1)))
      in train_sum a be r m2 (fadd acc v) bts)"

text \<open>A program leaves an observation of the state alone, whatever its outcome.\<close>

definition preserves :: "(('m, 'p) state \<Rightarrow> 'a) \<Rightarrow> ('m, 'p) prog \<Rightarrow> bool" where
  "preserves g p \<longleftrightarrow> (\<forall>s. g (snd (p s)) = g s)"

text \<open>A program only appends to the log, and only events that satisfy \<open>P\<close>.\<close>

definition emits :: "(event \<Rightarrow> bool) \<Rightarrow> ('m, 'p) prog \<Rightarrow> bool" where
  "emits P p \<longleftrightarrow> (\<forall>s. \<exists>evs. trace (snd (p s)) = trace s @ evs \<and> list_all P evs)"

text \<open>Only the arrival of the interrupt raises KeyboardInterrupt, and it arrives once.\<close>

definition interrupt_once :: "('m, 'p) prog \<Rightarrow> bool" where
  "interrupt_once p \<longleftrightarrow> (\<forall>s. fst (p s) = Some KeyboardInterrupt \<longrightarrow> ticks (snd (p s)) = None)"

fun eval_event :: "event \<Rightarrow> bool" where
  "eval_event EvEvalMode = True"
| "eval_event EvResetHidden = True"
| "eval_event (EvForward rs g x) = (\<not> rs)"
| "eval_event (EvPrintTest v) = True"
| "eval_event _ = False"

fun is_save :: "event \<Rightarrow> bool" where
  "is_save (EvSave e) = True"
| "is_save _ = False"

fun batch_event :: "event \<Rightarrow> bool" where
  "batch_event EvTrainMode = False"
| "batch_event EvEvalMode = False"
| "batch_event EvResetHidden = False"
| "batch_event _ = True"

text \<open>
  What a pass may have logged when it ends, whatever its outcome: nothing, the mode switch,
  or the mode switch, one reset of the hidden state and then events of the batches only.
\<close>

fun pass_log :: "event \<Rightarrow> event list \<Rightarrow> bool" where
  "pass_log mode [] = True"
| "pass_log mode [ev] = (ev = mode)"
| "pass_log mode (ev # ev' # rest) =
     (ev = mode \<and> ev' = EvResetHidden \<and> list_all batch_event rest)"

section \<open>A small instance\<close>

text \<open>
  A backend with one layer whose outputs are constant, a cross-entropy of 1, and a model
  state that counts optimizer steps; a loader with one window of two time steps.
\<close>

definition toy_fwd :: fwd where
  "toy_fwd = \<lparr>f_out = [[0]], f_raw_out = [[[1], [3]]], f_dropped_out = [[[2], [2]]]\<rparr>"

definition toy_be :: "(nat, nat) backend" where
  "toy_be =
     \<lparr>train_mode = (\<lambda>m. m), eval_mode = (\<lambda>m. m), reset_hidden = (\<lambda>m. m),
      forward = (\<lambda>g m x. (toy_fwd, m)), criterion = (\<lambda>out y. Num 1),
      zero_grad = (\<lambda>m. m), backward = (\<lambda>v m. m), clip_grad_norm = (\<lambda>c m. m),
      opt_step = (\<lambda>r m. Suc m), state_dict = (\<lambda>m. m)\<rparr>"

definition toy_loader :: loader where
  "toy_loader = \<lparr>iter = (\<lambda>k. [([[1], [2]], [2, 3])]), len = 1\<rparr>"

definition toy_args :: args where
  "toy_args =
     \<lparr>bs = 1, eval_bs = 1, bptt = 4, use_var_bptt = False, emb_dim = 400, hidden_dim = 1150,
      num_layers = 1, emb_dp = 0, hidden_dp = 0, input_dp = 0, weight_dp = 0, out_dp = 0,
      lr = 30, anneal_factor = 4, initrange = 0, tie_weights = True, epochs = 2,
      clip = 1, alpha = 2, beta = 1\<rparr>"

definition toy_state :: "(nat, nat) state" where
  "toy_state = init_state toy_args 0 None"

section \<open>Running without an interrupt\<close>

lemma tick_None: "ticks s = None \<Longrightarrow> tick s = (None, s)"
  by (simp add: tick_def)

lemma seq_tick_quiet: "ticks s = None \<Longrightarrow> seq tick q s = q s"
  by (simp add: seq_def tick_None)

lemma seq_assoc: "seq (seq p q) r s = seq p (seq q r) s"
  by (simp add: seq_def split: prod.splits option.splits)

lemma seq_block_Nil: "seq (block []) q s = q s"
  by (simp add: seq_def)

lemma seq_block_Cons: "seq (block (p # ps)) q s = seq tick (seq p (seq (block ps) q)) s"
  by (simp add: seq_def split: prod.splits option.splits)

lemma seq_upd: "seq (upd f) q s = q (f s)"
  by (simp add: seq_def upd_def)

lemma seq_attempt: "seq (attempt f) q s = (case f s of Inl e \<Rightarrow> (Some e, s) | Inr s' \<Rightarrow> q s')"
  by (simp add: seq_def attempt_def split: sum.splits)

lemmas quiet_simps = seq_tick_quiet seq_upd seq_attempt seq_block_Nil seq_block_Cons seq_assoc

lemmas stmt_defs = emit_def rescale_lr_def restore_lr_def call_model_states_def new_raw_loss_def
  add_ar_def add_tar_def do_zero_grad_def do_backward_def do_clip_def do_step_def
  alloc_def iadd_def item_def last_item_def call_model_def new_loss_def anneal_lr_def
  save_model_def write_csv_def

lemma train_batch_quiet:
  assumes "ticks s = None" and "use_var_bptt a \<longrightarrow> bptt a \<noteq> 0"
    and "forward be (grad_enabled s) (model s) (fst b) = (r, m)"
    and "f_raw_out r \<noteq> []" and "f_dropped_out r \<noteq> []"
  shows "\<exists>s'. train_batch a be b s = (None, s') \<and> ticks s' = None
     \<and> trace s' = trace s @ (if use_var_bptt a then [EvSetLR (window_lr a s b)] else [])
          @ [EvForward True (grad_enabled s) (fst b), EvZeroGrad,
             EvBackward (spec_loss a be r (snd b)), EvClip (clip a), EvStep (window_lr a s b)]
          @ (if use_var_bptt a then [EvSetLR (real_of_int (lr a))] else [])
     \<and> opt_lr s' = (if use_var_bptt a then real_of_int (lr a) else opt_lr s)
     \<and> train_loss s' = fadd (train_loss s) (spec_loss a be r (snd b))
     \<and> model s' = opt_step be (window_lr a s b) (clip_grad_norm be (clip a)
          (backward be (spec_loss a be r (snd b)) (zero_grad be m)))
     \<and> grad_enabled s' = grad_enabled s"
  using assms
  by (cases "use_var_bptt a")
     (simp_all add: train_batch_def quiet_simps if_then_def cond_def stmt_defs
       spec_loss_def window_lr_def Let_def)

section \<open>Learning-rate rescaling and the training loss\<close>

text \<open>
  Claim C1.  In variable-length BPTT mode, a training window whose input has \<open>L\<close> time
  steps is processed as follows (no interrupt arrives, the base length is not zero and the
  model returns at least one layer): the optimizer's learning rate is set to
  \<open>lr * L / bptt\<close>, the optimizer step is taken at that rate, and the next thing that
  happens is that the rate is set back to \<open>lr\<close>, which is the rate the optimizer holds
  when the window is done.
\<close>

theorem lr_rescaled_for_window_then_restored:
  assumes "use_var_bptt a" and "bptt a \<noteq> 0" and "ticks s = None"
    and "f_raw_out (fst (forward be (grad_enabled s) (model s) (fst b))) \<noteq> []"
    and "f_dropped_out (fst (forward be (grad_enabled s) (model s) (fst b))) \<noteq> []"
  shows "\<exists>s' v. train_batch a be b s = (None, s')
     \<and> trace s' = trace s @
         [EvSetLR (real_of_int (lr a) * real (length (fst b)) / real_of_int (bptt a)),
          EvForward True (grad_enabled s) (fst b), EvZeroGrad, EvBackward v, EvClip (clip a),
          EvStep (real_of_int (lr a) * real (length (fst b)) / real_of_int (bptt a)),
          EvSetLR (real_of_int (lr a))]
     \<and> opt_lr s' = real_of_int (lr a)"
proof -
  obtain r m where rm: "forward be (grad_enabled s) (model s) (fst b) = (r, m)"
    by (cases "forward be (grad_enabled s) (model s) (fst b)")
  with assms have "f_raw_out r \<noteq> []" "f_dropped_out r \<noteq> []" by simp_all
  moreover have "use_var_bptt a \<longrightarrow> bptt a \<noteq> 0" using assms(2) by simp
  ultimately obtain s' where "train_batch a be b s = (None, s')"
    and "trace s' = trace s @ (if use_var_bptt a then [EvSetLR (window_lr a s b)] else [])
          @ [EvForward True (grad_enabled s) (fst b), EvZeroGrad,
             EvBackward (spec_loss a be r (snd b)), EvClip (clip a), EvStep (window_lr a s b)]
          @ (if use_var_bptt a then [EvSetLR (real_of_int (lr a))] else [])"
    and "opt_lr s' = (if use_var_bptt a then real_of_int (lr a) else opt_lr s)"
    using train_batch_quiet [OF assms(3) _ rm] by blast
  then show ?thesis using assms(1) by (simp add: window_lr_def)
qed

theorem lr_rescaled_for_window_then_restored_witness:
  "use_var_bptt (toy_args\<lparr>use_var_bptt := True\<rparr>) \<and> bptt (toy_args\<lparr>use_var_bptt := True\<rparr>) \<noteq> 0
   \<and> ticks toy_state = None
   \<and> (\<exists>s' v. train_batch (toy_args\<lparr>use_var_bptt := True\<rparr>) toy_be ([[1], [2]], [2, 3]) toy_state = (None, s')
        \<and> trace s' = [EvSetLR 15, EvForward True True [[1], [2]], EvZeroGrad, EvBackward v,
                      EvClip 1, EvStep 15, EvSetLR 30]
        \<and> opt_lr s' = 30)"
  using lr_rescaled_for_window_then_restored
    [of "toy_args\<lparr>use_var_bptt := True\<rparr>" toy_state toy_be "([[1], [2]], [2, 3])"]
  by (simp add: toy_args_def toy_state_def toy_be_def toy_fwd_def init_state_def)

text \<open>
  Claim C2.  For every training batch that is processed to the end, exactly one loss is
  differentiated, and its value is the raw cross-entropy of the logits against the targets,
  plus \<open>alpha\<close> times the mean square of the last layer's dropped output, plus \<open>beta\<close>
  times the mean squared difference between consecutive time steps of the last layer's raw
  output.  Of the two lists of layer outputs only the last entries occur in it.
\<close>

theorem training_loss_is_ce_plus_ar_plus_tar:
  assumes "ticks s = None" and "use_var_bptt a \<longrightarrow> bptt a \<noteq> 0"
    and "forward be (grad_enabled s) (model s) (fst b) = (r, m)"
    and "f_raw_out r \<noteq> []" and "f_dropped_out r \<noteq> []"
  shows "\<exists>s' evs1 evs2. train_batch a be b s = (None, s')
     \<and> trace s' = trace s @ evs1 @
         [EvBackward
            (fadd (fadd (criterion be (f_out r) (snd b))
                        (fscale (alpha a) (pow2_mean (last (f_dropped_out r)))))
                  (fscale (beta a) (pow2_mean (time_diff (last (f_raw_out r))))))] @ evs2
     \<and> (\<forall>v. EvBackward v \<notin> set evs1 \<union> set evs2)"
proof -
  from train_batch_quiet [OF assms] obtain s' where
    run: "train_batch a be b s = (None, s')" and
    tr: "trace s' = trace s @ (if use_var_bptt a then [EvSetLR (window_lr a s b)] else [])
          @ [EvForward True (grad_enabled s) (fst b), EvZeroGrad,
             EvBackward (spec_loss a be r (snd b)), EvClip (clip a), EvStep (window_lr a s b)]
          @ (if use_var_bptt a then [EvSetLR (real_of_int (lr a))] else [])"
    by blast
  let ?evs1 = "(if use_var_bptt a then [EvSetLR (window_lr a s b)] else [])
          @ [EvForward True (grad_enabled s) (fst b), EvZeroGrad]"
  let ?evs2 = "[EvClip (clip a), EvStep (window_lr a s b)]
          @ (if use_var_bptt a then [EvSetLR (real_of_int (lr a))] else [])"
  have "trace s' = trace s @ ?evs1 @ [EvBackward (spec_loss a be r (snd b))] @ ?evs2"
    using tr by simp
  moreover have "\<forall>v. EvBackward v \<notin> set ?evs1 \<union> set ?evs2" by simp
  ultimately show ?thesis using run unfolding spec_loss_def by blast
qed

theorem training_loss_is_ce_plus_ar_plus_tar_witness:
  "ticks toy_state = None \<and> bptt toy_args \<noteq> 0
   \<and> forward toy_be (grad_enabled toy_state) (model toy_state) [[1], [2]] = (toy_fwd, 0)
   \<and> f_raw_out toy_fwd \<noteq> [] \<and> f_dropped_out toy_fwd \<noteq> []
   \<and> (\<exists>s' evs1 evs2. train_batch toy_args toy_be ([[1], [2]], [2, 3]) toy_state = (None, s')
        \<and> trace s' = trace toy_state @ evs1 @ [EvBackward (Num 13)] @ evs2
        \<and> (\<forall>v. EvBackward v \<notin> set evs1 \<union> set evs2))"
  using training_loss_is_ce_plus_ar_plus_tar
    [of toy_state toy_args toy_be "([[1], [2]], [2, 3])" toy_fwd 0]
  by (simp add: toy_args_def toy_state_def toy_be_def toy_fwd_def init_state_def
      pow2_mean_def time_diff_def)

section \<open>Frame rules\<close>

lemma block_Cons_fun: "block (p # ps) = seq tick (seq p (block ps))"
  by (rule ext) simp

lemma foreach_Cons_fun: "foreach (x # xs) body = seq (body x) (foreach xs body)"
  by (rule ext) simp

lemma preserves_tick: "(\<And>s t. g (s\<lparr>ticks := t\<rparr>) = g s) \<Longrightarrow> preserves g tick"
  by (auto simp: preserves_def tick_def split: option.splits nat.splits)

lemma preserves_upd: "(\<And>s. g (f s) = g s) \<Longrightarrow> preserves g (upd f)"
  by (simp add: preserves_def upd_def)

lemma preserves_attempt: "(\<And>s s'. f s = Inr s' \<Longrightarrow> g s' = g s) \<Longrightarrow> preserves g (attempt f)"
  by (auto simp: preserves_def attempt_def split: sum.splits)

lemma preserves_seq: "preserves g p \<Longrightarrow> preserves g q \<Longrightarrow> preserves g (seq p q)"
  by (auto simp: preserves_def seq_def split: prod.splits option.splits) (metis snd_conv)+

lemma preserves_block_Nil: "preserves g (block [])"
  by (simp add: preserves_def)

lemma preserves_block_Cons:
  "(\<And>s t. g (s\<lparr>ticks := t\<rparr>) = g s) \<Longrightarrow> preserves g p \<Longrightarrow> preserves g (block ps)
   \<Longrightarrow> preserves g (block (p # ps))"
  by (simp add: block_Cons_fun preserves_seq preserves_tick)

lemma preserves_foreach: "(\<And>x. preserves g (body x)) \<Longrightarrow> preserves g (foreach xs body)"
proof (induction xs)
  case Nil
  then show ?case by (simp add: preserves_def)
next
  case (Cons x xs)
  then show ?case by (simp add: foreach_Cons_fun preserves_seq)
qed

lemma preserves_cond: "preserves g p \<Longrightarrow> preserves g q \<Longrightarrow> preserves g (cond b p q)"
  by (simp add: cond_def)

lemma preserves_state_cond:
  "preserves g p \<Longrightarrow> preserves g q \<Longrightarrow> preserves g (\<lambda>s. cond (c s) p q s)"
  by (simp add: cond_def preserves_def)

lemma preserves_if_then: "preserves g p \<Longrightarrow> preserves g (if_then b p)"
  by (simp add: if_then_def cond_def preserves_def)

lemma preserves_with_no_grad:
  "(\<And>s b. g (s\<lparr>grad_enabled := b\<rparr>) = g s) \<Longrightarrow> preserves g p \<Longrightarrow> preserves g (with_no_grad p)"
  by (auto simp: preserves_def with_no_grad_def Let_def split: prod.splits) (metis snd_conv)

lemmas preserves_intros = preserves_block_Nil preserves_block_Cons preserves_foreach
  preserves_state_cond preserves_if_then preserves_with_no_grad preserves_upd preserves_attempt
  preserves_seq

lemmas pass_defs = train_batch_def train_pass_def valid_batch_def valid_pass_def test_batch_def
  test_pass_def epoch_end_def

lemma train_pass_frame:
  "preserves best_loss (train_pass a be ld k)"
  "preserves best_epoch (train_pass a be ld k)"
  "preserves pth_file (train_pass a be ld k)"
  "preserves valid_losses (train_pass a be ld k)"
  "preserves csv_file (train_pass a be ld k)"
  "preserves txt_file (train_pass a be ld k)"
  unfolding pass_defs
  by (intro preserves_intros;
      auto simp: stmt_defs Let_def split: prod.splits sum.splits if_splits)+

lemma valid_pass_frame:
  "preserves best_loss (valid_pass be ld k)"
  "preserves best_epoch (valid_pass be ld k)"
  "preserves pth_file (valid_pass be ld k)"
  "preserves train_losses (valid_pass be ld k)"
  "preserves opt_lr (valid_pass be ld k)"
  "preserves csv_file (valid_pass be ld k)"
  "preserves txt_file (valid_pass be ld k)"
  unfolding pass_defs
  by (intro preserves_intros;
      auto simp: stmt_defs Let_def split: prod.splits sum.splits if_splits)+

lemma test_pass_frame:
  "preserves best_loss (test_pass be ld)"
  "preserves best_epoch (test_pass be ld)"
  "preserves pth_file (test_pass be ld)"
  "preserves train_losses (test_pass be ld)"
  "preserves valid_losses (test_pass be ld)"
  "preserves opt_lr (test_pass be ld)"
  "preserves csv_file (test_pass be ld)"
  "preserves txt_file (test_pass be ld)"
  unfolding pass_defs
  by (intro preserves_intros;
      auto simp: stmt_defs Let_def split: prod.splits sum.splits if_splits)+

lemma epoch_end_frame:
  "preserves train_losses (epoch_end a be e)"
  "preserves valid_losses (epoch_end a be e)"
  "preserves csv_file (epoch_end a be e)"
  "preserves txt_file (epoch_end a be e)"
  unfolding pass_defs
  by (intro preserves_intros;
      auto simp: stmt_defs Let_def split: prod.splits sum.splits if_splits)+

lemma epoch_loop_frame:
  "preserves csv_file (epoch_loop a be trn vld)"
  "preserves txt_file (epoch_loop a be trn vld)"
  unfolding epoch_loop_def epoch_def
  by (intro preserves_intros train_pass_frame valid_pass_frame epoch_end_frame)+

section \<open>What a program logs\<close>

lemma emits_tick: "emits P tick"
  by (auto simp: emits_def tick_def split: option.splits nat.splits)

lemma emits_upd:
  "(\<And>s. \<exists>evs. trace (f s) = trace s @ evs \<and> list_all P evs) \<Longrightarrow> emits P (upd f)"
  by (simp add: emits_def upd_def)

lemma emits_attempt:
  "(\<And>s s'. f s = Inr s' \<Longrightarrow> \<exists>evs. trace s' = trace s @ evs \<and> list_all P evs)
   \<Longrightarrow> emits P (attempt f)"
  by (auto simp: emits_def attempt_def split: sum.splits)

lemma emits_seq:
  assumes "emits P p" and "emits P q"
  shows "emits P (seq p q)"
  unfolding emits_def
proof
  fix s
  obtain r s1 where ps: "p s = (r, s1)" by (cases "p s")
  from assms(1) ps obtain evs1 where e1: "trace s1 = trace s @ evs1" "list_all P evs1"
    unfolding emits_def by (metis snd_conv)
  show "\<exists>evs. trace (snd (seq p q s)) = trace s @ evs \<and> list_all P evs"
  proof (cases r)
    case None
    obtain r2 s2 where qs: "q s1 = (r2, s2)" by (cases "q s1")
    from assms(2) qs obtain evs2 where e2: "trace s2 = trace s1 @ evs2" "list_all P evs2"
      unfolding emits_def by (metis snd_conv)
    have "seq p q s = (r2, s2)" using ps None qs by (simp add: seq_def)
    with e1 e2 show ?thesis by (intro exI [of _ "evs1 @ evs2"]) simp
  next
    case (Some e)
    then have "seq p q s = (Some e, s1)" using ps by (simp add: seq_def)
    with e1 show ?thesis by auto
  qed
qed

lemma emits_block_Nil: "emits P (block [])"
  by (simp add: emits_def)

lemma emits_block_Cons: "emits P p \<Longrightarrow> emits P (block ps) \<Longrightarrow> emits P (block (p # ps))"
  by (simp add: block_Cons_fun emits_seq emits_tick)

lemma emits_foreach: "(\<And>x. emits P (body x)) \<Longrightarrow> emits P (foreach xs body)"
proof (induction xs)
  case Nil
  then show ?case by (simp add: emits_def)
next
  case (Cons x xs)
  then show ?case by (simp add: foreach_Cons_fun emits_seq)
qed

lemma emits_state_cond: "emits P p \<Longrightarrow> emits P q \<Longrightarrow> emits P (\<lambda>s. cond (c s) p q s)"
  by (simp add: cond_def emits_def)

lemma emits_if_then: "emits P p \<Longrightarrow> emits P (if_then b p)"
  by (simp add: if_then_def cond_def emits_def)

lemma emits_with_no_grad: "emits P p \<Longrightarrow> emits P (with_no_grad p)"
proof -
  assume a: "emits P p"
  show ?thesis
    unfolding emits_def
  proof
    fix s
    obtain r s1 where ps: "p (s\<lparr>grad_enabled := False\<rparr>) = (r, s1)"
      by (cases "p (s\<lparr>grad_enabled := False\<rparr>)")
    have "\<exists>evs. trace (snd (p (s\<lparr>grad_enabled := False\<rparr>)))
             = trace (s\<lparr>grad_enabled := False\<rparr>) @ evs \<and> list_all P evs"
      using a unfolding emits_def by blast
    with ps obtain evs where "trace s1 = trace s @ evs" "list_all P evs"
      by auto
    then show "\<exists>evs. trace (snd (with_no_grad p s)) = trace s @ evs \<and> list_all P evs"
      using ps by (simp add: with_no_grad_def)
  qed
qed

lemmas emits_intros = emits_block_Nil emits_block_Cons emits_foreach emits_state_cond
  emits_if_then emits_with_no_grad emits_upd emits_attempt emits_seq

lemma train_batch_emits: "emits batch_event (train_batch a be b)"
  unfolding pass_defs
  by (intro emits_intros;
      auto simp: stmt_defs Let_def split: prod.splits sum.splits if_splits)

lemma valid_batch_emits: "emits (\<lambda>ev. batch_event ev \<and> eval_event ev) (valid_batch be b)"
  unfolding pass_defs
  by (intro emits_intros;
      auto simp: stmt_defs Let_def split: prod.splits sum.splits if_splits)

lemma test_batch_emits: "emits (\<lambda>ev. batch_event ev \<and> eval_event ev) (test_batch be b)"
  unfolding pass_defs
  by (intro emits_intros;
      auto simp: stmt_defs Let_def split: prod.splits sum.splits if_splits)

lemma valid_pass_emits: "emits eval_event (valid_pass be ld k)"
  unfolding pass_defs
  by (intro emits_intros;
      auto simp: stmt_defs Let_def split: prod.splits sum.splits if_splits)



section \<open>The interrupt arrives once\<close>

lemma once_tick: "interrupt_once tick"
  by (auto simp: interrupt_once_def tick_def split: option.splits nat.splits)

lemma once_upd: "interrupt_once (upd f)"
  by (simp add: interrupt_once_def upd_def)

lemma once_attempt:
  "(\<And>s. f s \<noteq> Inl KeyboardInterrupt) \<Longrightarrow> interrupt_once (attempt f)"
  by (auto simp: interrupt_once_def attempt_def split: sum.splits)

lemma once_seq: "interrupt_once p \<Longrightarrow> interrupt_once q \<Longrightarrow> interrupt_once (seq p q)"
  by (auto simp: interrupt_once_def seq_def split: prod.splits option.splits)
     (metis fst_conv snd_conv)+

lemma once_block_Nil: "interrupt_once (block [])"
  by (simp add: interrupt_once_def)

lemma once_block_Cons:
  "interrupt_once p \<Longrightarrow> interrupt_once (block ps) \<Longrightarrow> interrupt_once (block (p # ps))"
  by (simp add: block_Cons_fun once_seq once_tick)

lemma once_foreach: "(\<And>x. interrupt_once (body x)) \<Longrightarrow> interrupt_once (foreach xs body)"
proof (induction xs)
  case Nil
  then show ?case by (simp add: interrupt_once_def)
next
  case (Cons x xs)
  then show ?case by (simp add: foreach_Cons_fun once_seq)
qed

lemma once_state_cond:
  "interrupt_once p \<Longrightarrow> interrupt_once q \<Longrightarrow> interrupt_once (\<lambda>s. cond (c s) p q s)"
  by (simp add: cond_def interrupt_once_def)

lemma once_if_then: "interrupt_once p \<Longrightarrow> interrupt_once (if_then b p)"
  by (simp add: if_then_def cond_def interrupt_once_def)

lemma once_with_no_grad: "interrupt_once p \<Longrightarrow> interrupt_once (with_no_grad p)"
  by (auto simp: interrupt_once_def with_no_grad_def Let_def split: prod.splits)
     (metis fst_conv snd_conv)

lemmas once_intros = once_block_Nil once_block_Cons once_foreach once_state_cond once_if_then
  once_with_no_grad once_upd once_attempt once_seq

lemma fdiv_len_not_interrupt [simp]: "fdiv_len v n \<noteq> Inl KeyboardInterrupt"
  by (cases "(v, n)" rule: fdiv_len.cases) simp_all

lemma epoch_loop_once: "interrupt_once (epoch_loop a be trn vld)"
  unfolding epoch_loop_def epoch_def pass_defs
  by (intro once_intros;
      auto simp: stmt_defs Let_def split: prod.splits sum.splits if_splits fl.splits nat.splits)

lemma valid_batch_quiet:
  assumes "ticks s = None"
  shows "\<exists>s'. valid_batch be b s = (None, s') \<and> ticks s' = None
     \<and> grad_enabled s' = grad_enabled s
     \<and> trace s' = trace s @ [EvForward False False (fst b)]
     \<and> (valid_loss s', model s') = eval_sum be (model s) (valid_loss s) [b]"
  using assms
  by (simp add: valid_batch_def quiet_simps seq_def [of "with_no_grad _"] with_no_grad_def
      stmt_defs Let_def split: prod.splits)

lemma test_batch_quiet:
  assumes "ticks s = None"
  shows "\<exists>s'. test_batch be b s = (None, s') \<and> ticks s' = None
     \<and> grad_enabled s' = grad_enabled s
     \<and> trace s' = trace s @ [EvForward False False (fst b)]
     \<and> (test_loss s', model s') = eval_sum be (model s) (test_loss s) [b]"
  using assms
  by (simp add: test_batch_def quiet_simps seq_def [of "with_no_grad _"] with_no_grad_def
      stmt_defs Let_def split: prod.splits)

lemma eval_sum_Cons:
  "eval_sum be m acc (b # bts) =
     eval_sum be (snd (eval_sum be m acc [b])) (fst (eval_sum be m acc [b])) bts"
  by (simp add: Let_def split: prod.splits)

lemma valid_batches_quiet:
  "ticks s = None \<Longrightarrow>
   \<exists>s'. foreach bts (valid_batch be) s = (None, s') \<and> ticks s' = None
     \<and> grad_enabled s' = grad_enabled s
     \<and> (valid_loss s', model s') = eval_sum be (model s) (valid_loss s) bts"
proof (induction bts arbitrary: s)
  case Nil
  then show ?case by simp
next
  case (Cons b bts)
  from valid_batch_quiet [OF Cons.prems] obtain s1 where
    s1: "valid_batch be b s = (None, s1)" "ticks s1 = None"
      "(valid_loss s1, model s1) = eval_sum be (model s) (valid_loss s) [b]"
      and g1: "grad_enabled s1 = grad_enabled s"
    by blast
  from Cons.IH [OF s1(2)] obtain s2 where
    s2: "foreach bts (valid_batch be) s1 = (None, s2)" "ticks s2 = None"
      "(valid_loss s2, model s2) = eval_sum be (model s1) (valid_loss s1) bts"
      and g2: "grad_enabled s2 = grad_enabled s1"
    by blast
  have "foreach (b # bts) (valid_batch be) s = (None, s2)"
    using s1(1) s2(1) by (simp add: seq_def)
  moreover have "(valid_loss s2, model s2) = eval_sum be (model s) (valid_loss s) (b # bts)"
    using s1(3) s2(3) by (subst eval_sum_Cons) (metis fst_conv snd_conv)
  ultimately show ?case using s2(2) g1 g2 by auto
qed

lemma test_batches_quiet:
  "ticks s = None \<Longrightarrow>
   \<exists>s'. foreach bts (test_batch be) s = (None, s') \<and> ticks s' = None
     \<and> grad_enabled s' = grad_enabled s
     \<and> (test_loss s', model s') = eval_sum be (model s) (test_loss s) bts"
proof (induction bts arbitrary: s)
  case Nil
  then show ?case by simp
next
  case (Cons b bts)
  from test_batch_quiet [OF Cons.prems] obtain s1 where
    s1: "test_batch be b s = (None, s1)" "ticks s1 = None"
      "(test_loss s1, model s1) = eval_sum be (model s) (test_loss s) [b]"
      and g1: "grad_enabled s1 = grad_enabled s"
    by blast
  from Cons.IH [OF s1(2)] obtain s2 where
    s2: "foreach bts (test_batch be) s1 = (None, s2)" "ticks s2 = None"
      "(test_loss s2, model s2) = eval_sum be (model s1) (test_loss s1) bts"
      and g2: "grad_enabled s2 = grad_enabled s1"
    by blast
  have "foreach (b # bts) (test_batch be) s = (None, s2)"
    using s1(1) s2(1) by (simp add: seq_def)
  moreover have "(test_loss s2, model s2) = eval_sum be (model s) (test_loss s) (b # bts)"
    using s1(3) s2(3) by (subst eval_sum_Cons) (metis fst_conv snd_conv)
  ultimately show ?case using s2(2) g1 g2 by auto
qed

lemma block_append: "block (ps @ qs) s = seq (block ps) (block qs) s"
proof (induction ps arbitrary: s)
  case Nil
  then show ?case by (simp add: seq_def)
next
  case (Cons p ps)
  have "block qs = (\<lambda>s. block qs s)" by simp
  then show ?case
    by (simp add: Cons.IH seq_def split: prod.splits option.splits)
qed

lemma test_pass_quiet:
  assumes "ticks s = None"
  shows "\<exists>r s'. test_pass be ld s = (r, s') \<and> ticks s' = None
     \<and> model s' = snd (eval_sum be (reset_hidden be (eval_mode be (model s))) (Num 0) (iter ld 0))
     \<and> (if len ld = 0 then r = Some ZeroDivisionError
         else r = None \<and>
           fdiv_len (fst (eval_sum be (reset_hidden be (eval_mode be (model s))) (Num 0) (iter ld 0)))
             (len ld) = Inr (test_loss s'))"
proof -
  let ?pre = "[upd (\<lambda>s. emit EvEvalMode (s\<lparr>model := eval_mode be (model s)\<rparr>)),
       upd (\<lambda>s. emit EvResetHidden (s\<lparr>model := reset_hidden be (model s)\<rparr>)),
       upd (\<lambda>s. s\<lparr>test_loss := Num 0\<rparr>)] :: ('a, 'b) prog list"
  let ?D = "attempt (\<lambda>s. case fdiv_len (test_loss s) (len ld) of
                       Inl e \<Rightarrow> Inl e | Inr v \<Rightarrow> Inr (s\<lparr>test_loss := v\<rparr>)) :: ('a, 'b) prog"
  let ?U = "upd (\<lambda>s. emit (EvPrintTest (test_loss s)) s) :: ('a, 'b) prog"
  let ?post = "[foreach (iter ld 0) (test_batch be), ?D, ?U]"
  have "test_pass be ld s = block (?pre @ ?post) s" by (simp add: test_pass_def)
  then have split: "test_pass be ld s = seq (block ?pre) (block ?post) s"
    by (simp only: block_append)
  obtain s0 where s0: "block ?pre s = (None, s0)" "ticks s0 = None"
      "model s0 = reset_hidden be (eval_mode be (model s))" "test_loss s0 = Num 0"
    using assms by (simp add: quiet_simps emit_def)
  from test_batches_quiet [OF s0(2)] obtain s1 where
    s1: "foreach (iter ld 0) (test_batch be) s0 = (None, s1)" "ticks s1 = None"
      "(test_loss s1, model s1) = eval_sum be (model s0) (test_loss s0) (iter ld 0)"
    by blast
  have run: "test_pass be ld s = block [?D, ?U] s1"
    using split s0(1,2) s1(1) by (simp add: seq_def tick_None)
  have es: "eval_sum be (reset_hidden be (eval_mode be (model s))) (Num 0) (iter ld 0)
              = (test_loss s1, model s1)"
    using s1(3) s0(3,4) by simp
  show ?thesis
  proof (cases "fdiv_len (test_loss s1) (len ld)")
    case (Inl e)
    then have "len ld = 0 \<and> e = ZeroDivisionError"
      by (cases "(test_loss s1, len ld)" rule: fdiv_len.cases) simp_all
    with Inl run s1(2) es show ?thesis
      by (simp add: quiet_simps)
  next
    case (Inr v)
    then have "len ld \<noteq> 0" by (cases "len ld") auto
    with Inr run s1(2) es show ?thesis
      by (simp add: quiet_simps emit_def)
  qed
qed

lemma save_outputs_quiet:
  "ticks s = None \<Longrightarrow>
   save_outputs s =
     (if length (train_losses s) \<noteq> length (valid_losses s) then (Some ValueError, s)
      else (None, s\<lparr>csv_file := Some (train_losses s, valid_losses s),
                     txt_file := Some (best_loss s, best_epoch s, test_loss s)\<rparr>))"
  by (simp add: save_outputs_def quiet_simps write_csv_def)

lemma main_interrupted:
  assumes "epoch_loop a be trn vld s = (Some KeyboardInterrupt, s1)"
  shows "ticks s1 = None"
    and "main a be trn vld tst s = seq (test_pass be tst) save_outputs (emit EvPrintExit s1)"
proof -
  show t: "ticks s1 = None"
    using epoch_loop_once [of a be trn vld] assms
    unfolding interrupt_once_def by (metis fst_conv snd_conv)
  then show "main a be trn vld tst s = seq (test_pass be tst) save_outputs (emit EvPrintExit s1)"
  proof -
    have "try_except (epoch_loop a be trn vld) s = (None, emit EvPrintExit s1)"
      using assms t by (simp add: try_except_def quiet_simps upd_def)
    then show ?thesis by (simp add: main_def seq_def)
  qed
qed

lemma preservesD: "preserves g p \<Longrightarrow> p s = (r, s') \<Longrightarrow> g s' = g s"
  unfolding preserves_def by (metis snd_conv)

lemma emitsD: "emits P p \<Longrightarrow> p s = (r, s') \<Longrightarrow> \<exists>evs. trace s' = trace s @ evs \<and> list_all P evs"
  unfolding emits_def by (metis snd_conv)

lemma seq_NoneD: "seq p q s = (None, s') \<Longrightarrow> \<exists>s1. p s = (None, s1) \<and> q s1 = (None, s')"
  by (auto simp: seq_def split: prod.splits option.splits)

lemma seq_SomeD:
  "seq p q s = (Some e, s') \<Longrightarrow> p s = (Some e, s') \<or> (\<exists>s1. p s = (None, s1) \<and> q s1 = (Some e, s'))"
  by (auto simp: seq_def split: prod.splits option.splits)

lemma tick_NoneD: "tick s = (None, s') \<Longrightarrow> s' = s\<lparr>ticks := ticks s'\<rparr>"
  by (auto simp: tick_def split: option.splits nat.splits)

lemma tick_SomeD: "tick s = (Some e, s') \<Longrightarrow> s' = s\<lparr>ticks := None\<rparr>"
  by (auto simp: tick_def split: option.splits nat.splits)

lemma block_snoc: "block (ps @ [q]) s = seq (block ps) (seq tick q) s"
proof -
  have "block [q] = seq tick q"
    by (rule ext) (simp add: seq_def split: prod.splits option.splits)
  then show ?thesis by (simp add: block_append)
qed

lemma foreach_append: "foreach (xs @ ys) body s = seq (foreach xs body) (foreach ys body) s"
proof (induction xs arbitrary: s)
  case Nil
  then show ?case by (simp add: seq_def)
next
  case (Cons x xs)
  then show ?case by (simp add: seq_def split: prod.splits option.splits)
qed

lemma tick_frame: "(\<And>s t. g (s\<lparr>ticks := t\<rparr>) = g s) \<Longrightarrow> tick s = (r, s') \<Longrightarrow> g s' = g s"
  by (auto simp: tick_def split: option.splits nat.splits)

lemma block_last_upd:
  assumes "block xs s = (None, s')" and "xs \<noteq> []" and "last xs = upd f"
    and "preserves g (block (butlast xs))" and "\<And>s t. g (s\<lparr>ticks := t\<rparr>) = g s"
  shows "\<exists>s1. g s1 = g s \<and> s' = f s1"
proof -
  define ps where "ps = butlast xs"
  have xs: "xs = ps @ [upd f]" using assms(2,3) unfolding ps_def by (metis append_butlast_last_id)
  have "block xs s = seq (block ps) (seq tick (upd f)) s"
    unfolding xs by (rule block_snoc)
  with assms(1) have "seq (block ps) (seq tick (upd f)) s = (None, s')" by simp
  from seq_NoneD [OF this] obtain s1 where
    s1: "block ps s = (None, s1)" and r: "seq tick (upd f) s1 = (None, s')" by blast
  from seq_NoneD [OF r] obtain s2 where
    s2: "tick s1 = (None, s2)" and s': "upd f s2 = (None, s')" by blast
  have "g s1 = g s" using preservesD [OF assms(4) [folded ps_def] s1] .
  moreover have "g s2 = g s1" using tick_frame [where g = g, OF assms(5) s2] .
  moreover have "s' = f s2" using s' by (simp add: upd_def)
  ultimately show ?thesis by auto
qed

lemma block_last_raises:
  assumes "block xs s = (Some e, s')" and "xs \<noteq> []" and "last xs = upd f"
    and "preserves g (block (butlast xs))" and "\<And>s t. g (s\<lparr>ticks := t\<rparr>) = g s"
  shows "g s' = g s"
proof -
  define ps where "ps = butlast xs"
  have xs: "xs = ps @ [upd f]" using assms(2,3) unfolding ps_def by (metis append_butlast_last_id)
  have "block xs s = seq (block ps) (seq tick (upd f)) s"
    unfolding xs by (rule block_snoc)
  with assms(1) have "seq (block ps) (seq tick (upd f)) s = (Some e, s')" by simp
  from seq_SomeD [OF this] consider "block ps s = (Some e, s')"
    | s1 where "block ps s = (None, s1)" "seq tick (upd f) s1 = (Some e, s')"
    by blast
  then show ?thesis
  proof cases
    case 1
    then show ?thesis using preservesD [OF assms(4) [folded ps_def]] by blast
  next
    case 2
    from 2(2) have "tick s1 = (Some e, s')"
      by (auto simp: seq_def upd_def split: prod.splits option.splits)
    then have "g s' = g s1" by (rule tick_frame [where g = g, OF assms(5)])
    then show ?thesis using preservesD [OF assms(4) [folded ps_def] 2(1)] by simp
  qed
qed

lemma train_batch_frame:
  "preserves train_losses (train_batch a be b)"
  "preserves valid_losses (train_batch a be b)"
  unfolding pass_defs
  by (intro preserves_intros;
      auto simp: stmt_defs Let_def split: prod.splits sum.splits if_splits)+

lemma valid_batch_frame:
  "preserves train_losses (valid_batch be b)"
  "preserves valid_losses (valid_batch be b)"
  unfolding pass_defs
  by (intro preserves_intros;
      auto simp: stmt_defs Let_def split: prod.splits sum.splits if_splits)+

lemma train_pass_appends:
  assumes "train_pass a be ld k s = (None, s')"
  shows "length (train_losses s') = Suc (length (train_losses s))"
proof -
  have "\<exists>s1. train_losses s1 = train_losses s
          \<and> s' = s1\<lparr>train_losses := train_losses s1 @ [train_loss s1]\<rparr>"
    by (rule block_last_upd [where g = train_losses, OF assms [unfolded train_pass_def]];
        simp; intro preserves_intros train_batch_frame; auto simp: emit_def split: sum.splits)
  then show ?thesis by auto
qed

lemma valid_pass_appends:
  assumes "valid_pass be ld k s = (None, s')"
  shows "\<exists>s1. valid_losses s1 = valid_losses s
          \<and> s' = s1\<lparr>valid_losses := valid_losses s1 @ [valid_loss s1]\<rparr>"
  by (rule block_last_upd [where g = valid_losses, OF assms [unfolded valid_pass_def]];
      simp; intro preserves_intros valid_batch_frame; auto simp: emit_def split: sum.splits)

lemma valid_pass_raises:
  assumes "valid_pass be ld k s = (Some e, s')"
  shows "valid_losses s' = valid_losses s"
  by (rule block_last_raises [where g = valid_losses, OF assms [unfolded valid_pass_def]];
      simp; intro preserves_intros valid_batch_frame; auto simp: emit_def split: sum.splits)

lemma epoch_lengths:
  assumes "epoch a be trn vld e s = (None, s')"
  shows "length (train_losses s') = Suc (length (train_losses s))"
    and "length (valid_losses s') = Suc (length (valid_losses s))"
proof -
  from assms obtain s1 s2 where
    s1: "train_pass a be trn (nat (e - 1)) s = (None, s1)" and
    s2: "valid_pass be vld (nat (e - 1)) s1 = (None, s2)" and
    s3: "epoch_end a be e s2 = (None, s')"
    unfolding epoch_def by (blast dest: seq_NoneD)
  have "train_losses s' = train_losses s2" "valid_losses s' = valid_losses s2"
    using preservesD [OF epoch_end_frame(1) s3] preservesD [OF epoch_end_frame(2) s3] by auto
  moreover have "train_losses s2 = train_losses s1"
    using preservesD [OF valid_pass_frame(4) s2] .
  moreover have "valid_losses s1 = valid_losses s"
    using preservesD [OF train_pass_frame(4) s1] .
  moreover note train_pass_appends [OF s1]
  moreover from valid_pass_appends [OF s2]
  have "length (valid_losses s2) = Suc (length (valid_losses s1))" by auto
  ultimately show "length (train_losses s') = Suc (length (train_losses s))"
    and "length (valid_losses s') = Suc (length (valid_losses s))" by simp_all
qed

lemma epochs_lengths:
  "foreach es (epoch a be trn vld) s = (None, s') \<Longrightarrow>
   length (train_losses s) = length (valid_losses s) \<Longrightarrow>
   length (train_losses s') = length (valid_losses s')"
proof (induction es arbitrary: s)
  case Nil
  then show ?case by simp
next
  case (Cons e es)
  from Cons.prems(1) obtain s1 where
    s1: "epoch a be trn vld e s = (None, s1)" and
    rest: "foreach es (epoch a be trn vld) s1 = (None, s')"
    by (auto dest: seq_NoneD)
  from epoch_lengths [OF s1] Cons.prems(2)
  have "length (train_losses s1) = length (valid_losses s1)" by simp
  from Cons.IH [OF rest this] show ?case .
qed


section \<open>The user's interrupt\<close>




text \<open>
  Claim C10.  Let the run start with loss lists of equal length, let some epochs complete,
  and let the interrupt arrive in a later epoch after its training pass has appended the
  train loss and before the validation pass appends the validation loss.  Then the train
  list is one longer than the validation list, the test pass still runs (its loader has a
  nonzero length), the construction of the data frame raises ValueError, and neither the
  CSV file nor the summary file is written.  In general, with lists of different lengths
  \<open>save_outputs\<close> never completes and writes neither file.
\<close>

theorem interrupt_between_appends_loses_outputs:
  assumes "[1 .. epochs a] = es1 @ e # es2"
    and "foreach es1 (epoch a be trn vld) s0 = (None, s)"
    and "length (train_losses s0) = length (valid_losses s0)"
    and "train_pass a be trn (nat (e - 1)) s = (None, s1)"
    and "valid_pass be vld (nat (e - 1)) s1 = (Some KeyboardInterrupt, s2)"
    and "len tst \<noteq> 0"
  shows "length (train_losses s2) = Suc (length (valid_losses s2))
     \<and> (\<exists>s3. main a be trn vld tst s0 = (Some ValueError, s3)
            \<and> csv_file s3 = csv_file s0 \<and> txt_file s3 = txt_file s0)
     \<and> (\<forall>q. length (train_losses q) \<noteq> length (valid_losses q) \<longrightarrow>
            fst (save_outputs q) \<noteq> None \<and> csv_file (snd (save_outputs q)) = csv_file q
            \<and> txt_file (snd (save_outputs q)) = txt_file q)"
proof -
  have eq: "length (train_losses s) = length (valid_losses s)"
    by (rule epochs_lengths [OF assms(2,3)])
  have "length (train_losses s1) = Suc (length (train_losses s))"
    by (rule train_pass_appends [OF assms(4)])
  moreover have "valid_losses s1 = valid_losses s"
    by (rule preservesD [OF train_pass_frame(4) assms(4)])
  moreover have "valid_losses s2 = valid_losses s1"
    by (rule valid_pass_raises [OF assms(5)])
  moreover have "train_losses s2 = train_losses s1"
    by (rule preservesD [OF valid_pass_frame(4) assms(5)])
  ultimately have neq: "length (train_losses s2) = Suc (length (valid_losses s2))"
    using eq by simp
  have ep: "epoch a be trn vld e s = (Some KeyboardInterrupt, s2)"
    using assms(4,5) by (simp add: epoch_def seq_def)
  have "epoch_loop a be trn vld s0 = (Some KeyboardInterrupt, s2)"
    using assms(2) ep by (simp add: epoch_loop_def assms(1) foreach_append seq_def)
  note lp = this
  let ?s2 = "emit EvPrintExit s2"
  have t2: "ticks ?s2 = None" using main_interrupted(1) [OF lp] by (simp add: emit_def)
  have m: "main a be trn vld tst s0 = seq (test_pass be tst) save_outputs ?s2"
    by (rule main_interrupted(2) [OF lp])
  from test_pass_quiet [OF t2, of be tst] assms(6) obtain s3 where
    tp: "test_pass be tst ?s2 = (None, s3)" and t3: "ticks s3 = None"
    by auto
  have l3: "length (train_losses s3) \<noteq> length (valid_losses s3)"
    using preservesD [OF test_pass_frame(4) tp] preservesD [OF test_pass_frame(5) tp] neq
    by (simp add: emit_def)
  have mn: "main a be trn vld tst s0 = (Some ValueError, s3)"
    using m tp save_outputs_quiet [OF t3] l3 by (simp add: seq_def)
  have files: "csv_file s3 = csv_file s0" "txt_file s3 = txt_file s0"
    using preservesD [OF test_pass_frame(7) tp] preservesD [OF test_pass_frame(8) tp]
      preservesD [OF epoch_loop_frame(1) lp] preservesD [OF epoch_loop_frame(2) lp]
    by (simp_all add: emit_def)
  show ?thesis
  proof (intro conjI)
    show "length (train_losses s2) = Suc (length (valid_losses s2))" by (rule neq)
    show "\<exists>s3. main a be trn vld tst s0 = (Some ValueError, s3)
            \<and> csv_file s3 = csv_file s0 \<and> txt_file s3 = txt_file s0"
      using mn files by blast
    show "\<forall>q. length (train_losses q) \<noteq> length (valid_losses q) \<longrightarrow>
            fst (save_outputs q) \<noteq> None \<and> csv_file (snd (save_outputs q)) = csv_file q
            \<and> txt_file (snd (save_outputs q)) = txt_file q"
      by (auto simp: save_outputs_def seq_def tick_def attempt_def write_csv_def
          split: option.splits nat.splits)
  qed
qed

lemma toy_interrupted_between:
  "\<exists>s1 s2. train_pass toy_args toy_be toy_loader 0 (init_state toy_args 0 (Some 19)) = (None, s1)
     \<and> valid_pass toy_be toy_loader 0 s1 = (Some KeyboardInterrupt, s2)"
  by (simp add: train_pass_def train_batch_def valid_pass_def toy_args_def toy_be_def
      toy_loader_def init_state_def seq_def tick_def upd_def attempt_def if_then_def cond_def
      stmt_defs toy_fwd_def pow2_mean_def time_diff_def)

theorem interrupt_between_appends_loses_outputs_witness:
  "\<exists>s1 s2 s3. train_pass toy_args toy_be toy_loader 0 (init_state toy_args 0 (Some 19)) = (None, s1)
     \<and> valid_pass toy_be toy_loader 0 s1 = (Some KeyboardInterrupt, s2)
     \<and> length (train_losses s2) = Suc (length (valid_losses s2))
     \<and> main toy_args toy_be toy_loader toy_loader toy_loader (init_state toy_args 0 (Some 19))
          = (Some ValueError, s3)
     \<and> csv_file s3 = None \<and> txt_file s3 = None"
proof -
  let ?s0 = "init_state toy_args 0 (Some 19) :: (nat, nat) state"
  obtain s1 s2 where
    h1: "train_pass toy_args toy_be toy_loader (nat (1 - 1)) ?s0 = (None, s1)" and
    h2: "valid_pass toy_be toy_loader (nat (1 - 1)) s1 = (Some KeyboardInterrupt, s2)"
    using toy_interrupted_between by auto
  have e: "[1 .. epochs toy_args] = [] @ 1 # [2]" by (simp add: toy_args_def upto.simps)
  have f: "foreach [] (epoch toy_args toy_be toy_loader toy_loader) ?s0 = (None, ?s0)" by simp
  have l: "length (train_losses ?s0) = length (valid_losses ?s0)" by (simp add: init_state_def)
  have n: "len toy_loader \<noteq> 0" by (simp add: toy_loader_def)
  from interrupt_between_appends_loses_outputs [OF e f l h1 h2 n] h1 h2
  show ?thesis by (auto simp: init_state_def)
qed

lemma pass_log_block:
  assumes "emits batch_event (block ps)"
    and "\<And>s. trace (f1 s) = trace s @ [mode]"
    and "\<And>s. trace (f2 s) = trace s @ [EvResetHidden]"
  shows "\<exists>evs. trace (snd (block (upd f1 # upd f2 # ps) s)) = trace s @ evs \<and> pass_log mode evs
           \<and> (fst (block (upd f1 # upd f2 # ps) s) = None \<longrightarrow> 2 \<le> length evs)"
proof -
  obtain r0 s0 where t0: "tick s = (r0, s0)" by (cases "tick s")
  have tr0: "trace s0 = trace s" by (rule tick_frame [where g = trace, OF _ t0]) simp
  show ?thesis
  proof (cases r0)
    case (Some e)
    then have "block (upd f1 # upd f2 # ps) s = (Some e, s0)" using t0 by (simp add: seq_def)
    then show ?thesis using tr0 by simp
  next
    case None
    obtain r1 s1 where t1: "tick (f1 s0) = (r1, s1)" by (cases "tick (f1 s0)")
    have tr1: "trace s1 = trace s @ [mode]"
      using tick_frame [where g = trace, OF _ t1] assms(2) tr0 by simp
    show ?thesis
    proof (cases r1)
      case (Some e)
      then have "block (upd f1 # upd f2 # ps) s = (Some e, s1)"
        using t0 t1 None by (simp add: seq_def upd_def)
      then show ?thesis using tr1 by simp
    next
      case None': None
      obtain r2 s2 where b: "block ps (f2 s1) = (r2, s2)" by (cases "block ps (f2 s1)")
      from emitsD [OF assms(1) b] obtain evs where
        evs: "trace s2 = trace (f2 s1) @ evs" "list_all batch_event evs" by blast
      have "block (upd f1 # upd f2 # ps) s = (r2, s2)"
        using t0 t1 None None' b by (simp add: seq_def upd_def)
      moreover have "trace s2 = trace s @ (mode # EvResetHidden # evs)"
        using evs(1) assms(3) tr1 by simp
      ultimately show ?thesis using evs(2)
        by (intro exI [of _ "mode # EvResetHidden # evs"]) simp
    qed
  qed
qed

lemma emits_mono: "emits P p \<Longrightarrow> (\<And>ev. P ev \<Longrightarrow> Q ev) \<Longrightarrow> emits Q p"
  unfolding emits_def by (metis (mono_tags, lifting) list_all_iff)

lemma eval_batch_emits:
  "emits batch_event (valid_batch be b)"
  "emits batch_event (test_batch be b)"
  by (rule emits_mono [OF valid_batch_emits], simp, rule emits_mono [OF test_batch_emits], simp)

lemma train_pass_log:
  "\<exists>evs. trace (snd (train_pass a be ld k s)) = trace s @ evs \<and> pass_log EvTrainMode evs
         \<and> (fst (train_pass a be ld k s) = None \<longrightarrow> 2 \<le> length evs)"
  unfolding train_pass_def
  by (rule pass_log_block;
      (intro emits_intros train_batch_emits)?; auto simp: emit_def split: sum.splits)

lemma valid_pass_log:
  "\<exists>evs. trace (snd (valid_pass be ld k s)) = trace s @ evs \<and> pass_log EvEvalMode evs
         \<and> (fst (valid_pass be ld k s) = None \<longrightarrow> 2 \<le> length evs)"
  unfolding valid_pass_def
  by (rule pass_log_block;
      (intro emits_intros eval_batch_emits)?; auto simp: emit_def split: sum.splits)

lemma test_pass_log:
  "\<exists>evs. trace (snd (test_pass be ld s)) = trace s @ evs \<and> pass_log EvEvalMode evs
         \<and> (fst (test_pass be ld s) = None \<longrightarrow> 2 \<le> length evs)"
  unfolding test_pass_def
  by (rule pass_log_block;
      (intro emits_intros eval_batch_emits)?; auto simp: emit_def split: sum.splits)

lemma epoch_end_emits: "emits batch_event (epoch_end a be e)"
  unfolding pass_defs
  by (intro emits_intros;
      auto simp: stmt_defs Let_def split: prod.splits sum.splits if_splits)

lemma train_sum_var_rate:
  "use_var_bptt a \<Longrightarrow> train_sum a be r m acc bts = train_sum a be r' m acc bts"
  by (induction bts arbitrary: m acc) (simp_all add: Let_def split: prod.splits)

lemma train_batches_quiet:
  assumes "has_layers be" and "use_var_bptt a \<longrightarrow> bptt a \<noteq> 0"
  shows "ticks s = None \<Longrightarrow> grad_enabled s \<Longrightarrow>
   \<exists>s'. foreach bts (train_batch a be) s = (None, s') \<and> ticks s' = None \<and> grad_enabled s'
     \<and> (train_loss s', model s') = train_sum a be (opt_lr s) (model s) (train_loss s) bts
     \<and> (\<not> use_var_bptt a \<longrightarrow> opt_lr s' = opt_lr s)"
proof (induction bts arbitrary: s)
  case Nil
  then show ?case by simp
next
  case (Cons b bts)
  obtain f m1 where fm: "forward be (grad_enabled s) (model s) (fst b) = (f, m1)"
    by (cases "forward be (grad_enabled s) (model s) (fst b)")
  have lay: "f_raw_out f \<noteq> []" "f_dropped_out f \<noteq> []"
    using assms(1) fm unfolding has_layers_def by (metis fst_conv)+
  from train_batch_quiet [OF Cons.prems(1) assms(2) fm lay] obtain s1 where
    s1: "train_batch a be b s = (None, s1)" "ticks s1 = None" "grad_enabled s1 = grad_enabled s"
      "opt_lr s1 = (if use_var_bptt a then real_of_int (lr a) else opt_lr s)"
      "train_loss s1 = fadd (train_loss s) (spec_loss a be f (snd b))"
      "model s1 = opt_step be (window_lr a s b) (clip_grad_norm be (clip a)
          (backward be (spec_loss a be f (snd b)) (zero_grad be m1)))"
    by blast
  have g1: "grad_enabled s1" using s1(3) Cons.prems(2) by simp
  from Cons.IH [OF s1(2) g1] obtain s2 where
    s2: "foreach bts (train_batch a be) s1 = (None, s2)" "ticks s2 = None" "grad_enabled s2"
      "(train_loss s2, model s2) = train_sum a be (opt_lr s1) (model s1) (train_loss s1) bts"
      "\<not> use_var_bptt a \<longrightarrow> opt_lr s2 = opt_lr s1"
    by blast
  have run: "foreach (b # bts) (train_batch a be) s = (None, s2)"
    using s1(1) s2(1) by (simp add: seq_def)
  have rate: "train_sum a be (opt_lr s1) (model s1) (train_loss s1) bts
        = train_sum a be (opt_lr s) (model s1) (train_loss s1) bts"
  proof (cases "use_var_bptt a")
    case True
    then show ?thesis by (rule train_sum_var_rate)
  next
    case False
    then show ?thesis using s1(4) by simp
  qed
  have "train_sum a be (opt_lr s) (model s) (train_loss s) (b # bts)
        = train_sum a be (opt_lr s) (model s1) (train_loss s1) bts"
    using fm Cons.prems(2) s1(5,6) by (simp add: window_lr_def Let_def)
  with s2(4) rate have "(train_loss s2, model s2)
        = train_sum a be (opt_lr s) (model s) (train_loss s) (b # bts)" by simp
  moreover have "\<not> use_var_bptt a \<longrightarrow> opt_lr s2 = opt_lr s" using s2(5) s1(4) by simp
  ultimately show ?case using run s2(2,3) by blast
qed

lemma train_pass_quiet:
  assumes "has_layers be" and "use_var_bptt a \<longrightarrow> bptt a \<noteq> 0" and "len ld \<noteq> 0"
    and "ticks s = None" and "grad_enabled s"
  shows "\<exists>s' v. train_pass a be ld k s = (None, s') \<and> ticks s' = None \<and> grad_enabled s'
     \<and> model s' = snd (train_sum a be (opt_lr s) (reset_hidden be (train_mode be (model s)))
                       (Num 0) (iter ld k))
     \<and> fdiv_len (fst (train_sum a be (opt_lr s) (reset_hidden be (train_mode be (model s)))
                       (Num 0) (iter ld k))) (len ld) = Inr v
     \<and> train_loss s' = v \<and> train_losses s' = train_losses s @ [v]"
proof -
  let ?pre = "[upd (\<lambda>s. emit EvTrainMode (s\<lparr>model := train_mode be (model s)\<rparr>)),
       upd (\<lambda>s. emit EvResetHidden (s\<lparr>model := reset_hidden be (model s)\<rparr>)),
       upd (\<lambda>s. s\<lparr>train_loss := Num 0\<rparr>)] :: ('a, 'b) prog list"
  let ?D = "attempt (\<lambda>s. case fdiv_len (train_loss s) (len ld) of
                       Inl e \<Rightarrow> Inl e | Inr v \<Rightarrow> Inr (s\<lparr>train_loss := v\<rparr>)) :: ('a, 'b) prog"
  let ?U = "upd (\<lambda>s. s\<lparr>train_losses := train_losses s @ [train_loss s]\<rparr>) :: ('a, 'b) prog"
  let ?post = "[foreach (iter ld k) (train_batch a be), ?D, ?U]"
  have "train_pass a be ld k s = block (?pre @ ?post) s" by (simp add: train_pass_def)
  then have split: "train_pass a be ld k s = seq (block ?pre) (block ?post) s"
    by (simp only: block_append)
  obtain s0 where s0: "block ?pre s = (None, s0)" "ticks s0 = None" "grad_enabled s0"
      "model s0 = reset_hidden be (train_mode be (model s))" "train_loss s0 = Num 0"
      "opt_lr s0 = opt_lr s" "train_losses s0 = train_losses s"
    using assms(4,5) by (simp add: quiet_simps emit_def)
  from train_batches_quiet [OF assms(1,2) s0(2,3)] obtain s1 where
    s1: "foreach (iter ld k) (train_batch a be) s0 = (None, s1)" "ticks s1 = None"
      "grad_enabled s1"
      "(train_loss s1, model s1) = train_sum a be (opt_lr s0) (model s0) (train_loss s0) (iter ld k)"
    by blast
  have tl1: "train_losses s1 = train_losses s"
    using preservesD [OF preserves_foreach [where g = train_losses, OF train_batch_frame(1)] s1(1)]
      s0(7) by simp
  have run: "train_pass a be ld k s = block [?D, ?U] s1"
    using split s0(1,2) s1(1) by (simp add: seq_def tick_None)
  have es: "train_sum a be (opt_lr s) (reset_hidden be (train_mode be (model s))) (Num 0) (iter ld k)
              = (train_loss s1, model s1)"
    using s1(4) s0(4,5,6) by simp
  obtain v where v: "fdiv_len (train_loss s1) (len ld) = Inr v"
    using assms(3) by (cases "(train_loss s1, len ld)" rule: fdiv_len.cases) simp_all
  with run s1(2,3) es tl1 show ?thesis
    by (simp add: quiet_simps)
qed

lemma valid_pass_quiet:
  assumes "len ld \<noteq> 0" and "ticks s = None"
  shows "\<exists>s' v. valid_pass be ld k s = (None, s') \<and> ticks s' = None
     \<and> grad_enabled s' = grad_enabled s
     \<and> model s' = snd (eval_sum be (reset_hidden be (eval_mode be (model s))) (Num 0) (iter ld k))
     \<and> fdiv_len (fst (eval_sum be (reset_hidden be (eval_mode be (model s))) (Num 0) (iter ld k)))
          (len ld) = Inr v
     \<and> valid_loss s' = v \<and> valid_losses s' = valid_losses s @ [v]"
proof -
  let ?pre = "[upd (\<lambda>s. emit EvEvalMode (s\<lparr>model := eval_mode be (model s)\<rparr>)),
       upd (\<lambda>s. emit EvResetHidden (s\<lparr>model := reset_hidden be (model s)\<rparr>)),
       upd (\<lambda>s. s\<lparr>valid_loss := Num 0\<rparr>)] :: ('a, 'b) prog list"
  let ?D = "attempt (\<lambda>s. case fdiv_len (valid_loss s) (len ld) of
                       Inl e \<Rightarrow> Inl e | Inr v \<Rightarrow> Inr (s\<lparr>valid_loss := v\<rparr>)) :: ('a, 'b) prog"
  let ?U = "upd (\<lambda>s. s\<lparr>valid_losses := valid_losses s @ [valid_loss s]\<rparr>) :: ('a, 'b) prog"
  let ?post = "[foreach (iter ld k) (valid_batch be), ?D, ?U]"
  have "valid_pass be ld k s = block (?pre @ ?post) s" by (simp add: valid_pass_def)
  then have split: "valid_pass be ld k s = seq (block ?pre) (block ?post) s"
    by (simp only: block_append)
  obtain s0 where s0: "block ?pre s = (None, s0)" "ticks s0 = None"
      "grad_enabled s0 = grad_enabled s"
      "model s0 = reset_hidden be (eval_mode be (model s))" "valid_loss s0 = Num 0"
      "valid_losses s0 = valid_losses s"
    using assms(2) by (simp add: quiet_simps emit_def)
  from valid_batches_quiet [OF s0(2)] obtain s1 where
    s1: "foreach (iter ld k) (valid_batch be) s0 = (None, s1)" "ticks s1 = None"
      "(valid_loss s1, model s1) = eval_sum be (model s0) (valid_loss s0) (iter ld k)"
      "grad_enabled s1 = grad_enabled s0"
    by blast
  have tl1: "valid_losses s1 = valid_losses s"
    using preservesD [OF preserves_foreach [where g = valid_losses, OF valid_batch_frame(2)] s1(1)]
      s0(6) by simp
  have g1: "grad_enabled s1 = grad_enabled s" using s1(4) s0(3) by simp
  have run: "valid_pass be ld k s = block [?D, ?U] s1"
    using split s0(1,2) s1(1) by (simp add: seq_def tick_None)
  have es: "eval_sum be (reset_hidden be (eval_mode be (model s))) (Num 0) (iter ld k)
              = (valid_loss s1, model s1)"
    using s1(3) s0(4,5) by simp
  obtain v where v: "fdiv_len (valid_loss s1) (len ld) = Inr v"
    using assms(1) by (cases "(valid_loss s1, len ld)" rule: fdiv_len.cases) simp_all
  with run s1(2) g1 es tl1 show ?thesis
    by (simp add: quiet_simps)
qed

section \<open>Resetting the hidden state\<close>

text \<open>
  Claim C7.  Whatever its outcome, a training pass, a validation pass and the test pass log
  first the mode switch, then one reset of the hidden state, and after that only events of
  batches and of the statements after the loop, none of which is a reset; a pass that
  completes has logged the reset.  The code between the passes (checkpoint and annealing)
  logs no reset either.  The hidden state is part of the model state, which persists
  across the windows of a pass: when no interrupt arrives, the model state after a pass is
  the fold of the windows over the model state left by the reset, each window starting from
  the state the previous one left.
\<close>

theorem reset_hidden_once_at_pass_start:
  "(\<exists>evs. trace (snd (train_pass a be trn k s)) = trace s @ evs \<and> pass_log EvTrainMode evs
         \<and> (fst (train_pass a be trn k s) = None \<longrightarrow> 2 \<le> length evs))
   \<and> (\<exists>evs. trace (snd (valid_pass be vld k s)) = trace s @ evs \<and> pass_log EvEvalMode evs
         \<and> (fst (valid_pass be vld k s) = None \<longrightarrow> 2 \<le> length evs))
   \<and> (\<exists>evs. trace (snd (test_pass be tst s)) = trace s @ evs \<and> pass_log EvEvalMode evs
         \<and> (fst (test_pass be tst s) = None \<longrightarrow> 2 \<le> length evs))
   \<and> emits batch_event (epoch_end a be e)
   \<and> (has_layers be \<and> (use_var_bptt a \<longrightarrow> bptt a \<noteq> 0) \<and> len trn \<noteq> 0 \<and> ticks s = None
        \<and> grad_enabled s \<longrightarrow>
        model (snd (train_pass a be trn k s))
          = snd (train_sum a be (opt_lr s) (reset_hidden be (train_mode be (model s))) (Num 0)
                  (iter trn k)))
   \<and> (len vld \<noteq> 0 \<and> ticks s = None \<longrightarrow>
        model (snd (valid_pass be vld k s))
          = snd (eval_sum be (reset_hidden be (eval_mode be (model s))) (Num 0) (iter vld k)))
   \<and> (ticks s = None \<longrightarrow>
        model (snd (test_pass be tst s))
          = snd (eval_sum be (reset_hidden be (eval_mode be (model s))) (Num 0) (iter tst 0)))"
proof (intro conjI impI)
  show "\<exists>evs. trace (snd (train_pass a be trn k s)) = trace s @ evs \<and> pass_log EvTrainMode evs
         \<and> (fst (train_pass a be trn k s) = None \<longrightarrow> 2 \<le> length evs)"
    by (rule train_pass_log)
  show "\<exists>evs. trace (snd (valid_pass be vld k s)) = trace s @ evs \<and> pass_log EvEvalMode evs
         \<and> (fst (valid_pass be vld k s) = None \<longrightarrow> 2 \<le> length evs)"
    by (rule valid_pass_log)
  show "\<exists>evs. trace (snd (test_pass be tst s)) = trace s @ evs \<and> pass_log EvEvalMode evs
         \<and> (fst (test_pass be tst s) = None \<longrightarrow> 2 \<le> length evs)"
    by (rule test_pass_log)
  show "emits batch_event (epoch_end a be e)" by (rule epoch_end_emits)
next
  assume h: "has_layers be \<and> (use_var_bptt a \<longrightarrow> bptt a \<noteq> 0) \<and> len trn \<noteq> 0 \<and> ticks s = None
        \<and> grad_enabled s"
  then have "has_layers be" "use_var_bptt a \<longrightarrow> bptt a \<noteq> 0" "len trn \<noteq> 0" "ticks s = None"
    "grad_enabled s" by simp_all
  from train_pass_quiet [OF this, of k]
  show "model (snd (train_pass a be trn k s))
          = snd (train_sum a be (opt_lr s) (reset_hidden be (train_mode be (model s))) (Num 0)
                  (iter trn k))"
    by auto
next
  assume "len vld \<noteq> 0 \<and> ticks s = None"
  then have "len vld \<noteq> 0" "ticks s = None" by simp_all
  from valid_pass_quiet [OF this, of be k]
  show "model (snd (valid_pass be vld k s))
          = snd (eval_sum be (reset_hidden be (eval_mode be (model s))) (Num 0) (iter vld k))"
    by auto
next
  assume "ticks s = None"
  from test_pass_quiet [OF this, of be tst]
  show "model (snd (test_pass be tst s))
          = snd (eval_sum be (reset_hidden be (eval_mode be (model s))) (Num 0) (iter tst 0))"
    by auto
qed

lemma toy_has_layers: "has_layers toy_be"
  by (simp add: has_layers_def toy_be_def toy_fwd_def)

theorem reset_hidden_once_at_pass_start_witness:
  "has_layers toy_be \<and> bptt toy_args \<noteq> 0 \<and> len toy_loader \<noteq> 0 \<and> ticks toy_state = None
   \<and> grad_enabled toy_state
   \<and> (\<exists>evs. trace (snd (train_pass toy_args toy_be toy_loader 0 toy_state)) = trace toy_state @ evs
         \<and> pass_log EvTrainMode evs \<and> 2 \<le> length evs)
   \<and> model (snd (train_pass toy_args toy_be toy_loader 0 toy_state))
        = snd (train_sum toy_args toy_be (opt_lr toy_state)
                 (reset_hidden toy_be (train_mode toy_be (model toy_state))) (Num 0)
                 (iter toy_loader 0))
   \<and> model (snd (valid_pass toy_be toy_loader 0 toy_state))
        = snd (eval_sum toy_be (reset_hidden toy_be (eval_mode toy_be (model toy_state))) (Num 0)
                 (iter toy_loader 0))
   \<and> model (snd (test_pass toy_be toy_loader toy_state))
        = snd (eval_sum toy_be (reset_hidden toy_be (eval_mode toy_be (model toy_state))) (Num 0)
                 (iter toy_loader 0))"
proof -
  have h: "has_layers toy_be" "bptt toy_args \<noteq> 0" "len toy_loader \<noteq> 0" "ticks toy_state = None"
    "grad_enabled toy_state"
    by (simp_all add: toy_has_layers toy_args_def toy_loader_def toy_state_def init_state_def)
  have c: "fst (train_pass toy_args toy_be toy_loader 0 toy_state) = None"
    using train_pass_quiet [OF h(1) _ h(3,4,5), of toy_args 0] h(2) by auto
  from reset_hidden_once_at_pass_start
    [of toy_args toy_be toy_loader 0 toy_state toy_loader toy_loader 1] h c
  show ?thesis by simp
qed

section \<open>The reported training loss\<close>

text \<open>
  Claim C6 says that every reported loss is the mean of the raw cross-entropy only.  The
  training loop accumulates \<^verbatim>\<open>raw_loss.item()\<close> after \<^verbatim>\<open>loss = raw_loss\<close> and two
  in-place additions to \<^verbatim>\<open>loss\<close>, so the tensor it reads holds the penalties as well.  In
  the small instance the raw cross-entropy of the only batch is 1 and the reported training
  loss of the epoch is 13 = 1 + 2 * 4 + 1 * 4.
\<close>

theorem reported_train_loss_includes_penalties:
  "train_losses (snd (train_pass toy_args toy_be toy_loader 0 toy_state)) = [Num 13]
   \<and> criterion toy_be (f_out toy_fwd) [2, 3] = Num 1
   \<and> valid_losses (snd (valid_pass toy_be toy_loader 0 toy_state)) = [Num 1]"
  by (simp add: train_pass_def train_batch_def valid_pass_def valid_batch_def toy_args_def
      toy_be_def toy_loader_def toy_state_def init_state_def quiet_simps if_then_def cond_def
      seq_def [of "with_no_grad _"] seq_def [of "foreach _ _"] with_no_grad_def
      stmt_defs toy_fwd_def pow2_mean_def time_diff_def Let_def)

section \<open>Checkpoint and annealing\<close>

lemma block_Cons_NoneD:
  "block (p # ps) s = (None, s') \<Longrightarrow>
   \<exists>t s1. p (s\<lparr>ticks := t\<rparr>) = (None, s1) \<and> block ps s1 = (None, s')"
proof -
  assume "block (p # ps) s = (None, s')"
  then have "seq tick (seq p (block ps)) s = (None, s')" by simp
  from seq_NoneD [OF this] obtain s0 where
    s0: "tick s = (None, s0)" and r: "seq p (block ps) s0 = (None, s')" by blast
  from seq_NoneD [OF r] obtain s1 where "p s0 = (None, s1)" "block ps s1 = (None, s')" by blast
  with tick_NoneD [OF s0] show ?thesis by metis
qed

lemma upd_None_iff: "upd f s = (None, s') \<longleftrightarrow> s' = f s"
  by (auto simp: upd_def)

lemma attempt_None_iff: "attempt f s = (None, s') \<longleftrightarrow> f s = Inr s'"
  by (auto simp: attempt_def split: sum.splits)

lemma block_Nil_None_iff: "block [] s = (None, s') \<longleftrightarrow> s' = s"
  by auto

lemmas normal_simps = block_Nil_None_iff upd_None_iff attempt_None_iff

lemma epoch_end_effect:
  assumes "epoch_end a be e s = (None, s')"
  shows "model s' = model s" and "valid_loss s' = valid_loss s"
    and "if flt (valid_loss s) (best_loss s)
         then pth_file s' = Some (state_dict be (model s)) \<and> best_epoch s' = e
              \<and> best_loss s' = valid_loss s \<and> opt_lr s' = opt_lr s
         else pth_file s' = pth_file s \<and> best_epoch s' = best_epoch s
              \<and> best_loss s' = best_loss s
              \<and> (if use_var_bptt a then opt_lr s' = opt_lr s
                  else anneal_factor a \<noteq> 0 \<and> opt_lr s' = opt_lr s / anneal_factor a)"
  using assms
  by (cases "flt (valid_loss s) (best_loss s)"; cases "use_var_bptt a";
      auto dest!: block_Cons_NoneD simp del: block.simps
        simp: epoch_end_def normal_simps cond_def if_then_def save_model_def anneal_lr_def
          emit_def Let_def split: if_splits)+

lemma epoch_end_log:
  assumes "epoch_end a be e s = (None, s')"
  shows "\<exists>evs. trace s' = trace s @ evs
           \<and> filter is_save evs = (if flt (valid_loss s) (best_loss s) then [EvSave e] else [])"
  using assms
  by (cases "flt (valid_loss s) (best_loss s)"; cases "use_var_bptt a";
      auto dest!: block_Cons_NoneD simp del: block.simps
        simp: epoch_end_def normal_simps cond_def if_then_def save_model_def anneal_lr_def
          emit_def Let_def split: if_splits)+

lemma no_save_filter: "list_all (\<lambda>ev. \<not> is_save ev) evs \<Longrightarrow> filter is_save evs = []"
  by (induction evs) auto

lemma passes_no_save:
  "emits (\<lambda>ev. \<not> is_save ev) (train_pass a be ld k)"
  "emits (\<lambda>ev. \<not> is_save ev) (valid_pass be ld k)"
proof -
  show "emits (\<lambda>ev. \<not> is_save ev) (train_pass a be ld k)"
    unfolding pass_defs
    by (intro emits_intros;
        auto simp: stmt_defs Let_def split: prod.splits sum.splits if_splits)
  show "emits (\<lambda>ev. \<not> is_save ev) (valid_pass be ld k)"
    by (rule emits_mono [OF valid_pass_emits]) (auto elim: eval_event.elims)
qed

lemma best_so_far_snoc:
  "best_so_far (vs @ [v]) = (if flt v (best_so_far vs) then v else best_so_far vs)"
  by (simp add: best_so_far_def)

text \<open>
  Claim C3.  Take an epoch that runs to its end from a state whose best loss is the lowest
  validation loss seen so far (infinity before the first epoch).  It appends its validation
  loss \<open>v\<close> to the history, and the best loss is again the lowest seen.  If \<open>v\<close> is
  strictly below the best seen so far, the epoch writes the checkpoint file once: it holds
  the parameters the model has at the end of the epoch, the best epoch is this one and the
  learning rate is the one the validation pass left.  Otherwise the epoch does not write
  the checkpoint file, the file and the best epoch are as before the epoch, and the
  learning rate is divided by the anneal factor exactly when variable-length BPTT is off.
\<close>

theorem checkpoint_iff_validation_improved:
  assumes "epoch a be trn vld e s = (None, s')"
    and "best_loss s = best_so_far (valid_losses s)"
  shows "\<exists>s1 s2.
       train_pass a be trn (nat (e - 1)) s = (None, s1)
     \<and> valid_pass be vld (nat (e - 1)) s1 = (None, s2)
     \<and> epoch_end a be e s2 = (None, s')
     \<and> valid_losses s' = valid_losses s @ [valid_loss s2]
     \<and> best_loss s' = best_so_far (valid_losses s')
     \<and> (\<exists>evs. trace s' = trace s @ evs
           \<and> filter is_save evs
               = (if flt (valid_loss s2) (best_so_far (valid_losses s)) then [EvSave e] else []))
     \<and> (if flt (valid_loss s2) (best_so_far (valid_losses s))
         then pth_file s' = Some (state_dict be (model s')) \<and> best_epoch s' = e
              \<and> best_loss s' = valid_loss s2 \<and> opt_lr s' = opt_lr s2
         else pth_file s' = pth_file s \<and> best_epoch s' = best_epoch s
              \<and> best_loss s' = best_loss s
              \<and> (if use_var_bptt a then opt_lr s' = opt_lr s2
                  else anneal_factor a \<noteq> 0 \<and> opt_lr s' = opt_lr s2 / anneal_factor a))"
proof -
  from assms(1) obtain s1 s2 where
    s1: "train_pass a be trn (nat (e - 1)) s = (None, s1)" and
    s2: "valid_pass be vld (nat (e - 1)) s1 = (None, s2)" and
    s3: "epoch_end a be e s2 = (None, s')"
    unfolding epoch_def by (blast dest: seq_NoneD)
  have f1: "valid_losses s1 = valid_losses s" "best_loss s1 = best_loss s"
    "pth_file s1 = pth_file s" "best_epoch s1 = best_epoch s"
    using preservesD [OF train_pass_frame(4) s1] preservesD [OF train_pass_frame(1) s1]
      preservesD [OF train_pass_frame(3) s1] preservesD [OF train_pass_frame(2) s1]
    by simp_all
  have f2: "best_loss s2 = best_loss s1" "pth_file s2 = pth_file s1"
    "best_epoch s2 = best_epoch s1"
    using preservesD [OF valid_pass_frame(1) s2] preservesD [OF valid_pass_frame(3) s2]
      preservesD [OF valid_pass_frame(2) s2]
    by simp_all
  from valid_pass_appends [OF s2] have v2: "valid_losses s2 = valid_losses s1 @ [valid_loss s2]"
    by auto
  have f3: "valid_losses s' = valid_losses s2"
    using preservesD [OF epoch_end_frame(2) s3] .
  have vl: "valid_losses s' = valid_losses s @ [valid_loss s2]" using f3 v2 f1(1) by simp
  have b2: "best_loss s2 = best_so_far (valid_losses s)" using f2(1) f1(2) assms(2) by simp
  note ee = epoch_end_effect [OF s3]
  have best: "best_loss s' = best_so_far (valid_losses s')"
    using ee(3) b2 vl by (simp add: best_so_far_snoc split: if_splits)
  have fields: "if flt (valid_loss s2) (best_so_far (valid_losses s))
         then pth_file s' = Some (state_dict be (model s')) \<and> best_epoch s' = e
              \<and> best_loss s' = valid_loss s2 \<and> opt_lr s' = opt_lr s2
         else pth_file s' = pth_file s \<and> best_epoch s' = best_epoch s
              \<and> best_loss s' = best_loss s
              \<and> (if use_var_bptt a then opt_lr s' = opt_lr s2
                  else anneal_factor a \<noteq> 0 \<and> opt_lr s' = opt_lr s2 / anneal_factor a)"
    using ee b2 f1 f2 by (simp split: if_splits)
  note fields
  moreover have "\<exists>evs. trace s' = trace s @ evs
           \<and> filter is_save evs
               = (if flt (valid_loss s2) (best_so_far (valid_losses s)) then [EvSave e] else [])"
  proof -
    from emitsD [OF passes_no_save(1) s1] obtain e1 where
      e1: "trace s1 = trace s @ e1" "filter is_save e1 = []" by (auto dest: no_save_filter)
    from emitsD [OF passes_no_save(2) s2] obtain e2 where
      e2: "trace s2 = trace s1 @ e2" "filter is_save e2 = []" by (auto dest: no_save_filter)
    from epoch_end_log [OF s3] b2 obtain e3 where
      e3: "trace s' = trace s2 @ e3"
        "filter is_save e3
           = (if flt (valid_loss s2) (best_so_far (valid_losses s)) then [EvSave e] else [])"
      by auto
    have "trace s' = trace s @ (e1 @ e2 @ e3)" using e1(1) e2(1) e3(1) by simp
    moreover have "filter is_save (e1 @ e2 @ e3)
           = (if flt (valid_loss s2) (best_so_far (valid_losses s)) then [EvSave e] else [])"
      using e1(2) e2(2) e3(2) by simp
    ultimately show ?thesis by blast
  qed
  ultimately show ?thesis using s1 s2 s3 vl best by blast
qed

lemma seq_state_cond:
  "seq (\<lambda>s. cond (c s) p q s) r s = (if c s then seq p r s else seq q r s)"
  by (simp add: seq_def cond_def)

lemma if_then_simps: "if_then True p = p" "if_then False p = block []"
  by (simp_all add: if_then_def cond_def)

lemma epoch_end_quiet:
  assumes "ticks s = None" and "use_var_bptt a \<or> anneal_factor a \<noteq> 0"
  shows "\<exists>s'. epoch_end a be e s = (None, s') \<and> ticks s' = None
           \<and> grad_enabled s' = grad_enabled s"
proof (cases "flt (valid_loss s) (best_loss s)")
  case True
  with assms(1) show ?thesis
    by (simp add: epoch_end_def quiet_simps seq_state_cond save_model_def emit_def)
next
  case False
  with assms show ?thesis
    by (cases "use_var_bptt a")
       (simp_all add: epoch_end_def quiet_simps seq_state_cond if_then_simps
         anneal_lr_def emit_def Let_def)
qed

lemma epoch_quiet:
  assumes "has_layers be" and "use_var_bptt a \<longrightarrow> bptt a \<noteq> 0"
    and "use_var_bptt a \<or> anneal_factor a \<noteq> 0"
    and "len trn \<noteq> 0" and "len vld \<noteq> 0"
    and "ticks s = None" and "grad_enabled s"
  shows "\<exists>s'. epoch a be trn vld e s = (None, s') \<and> ticks s' = None \<and> grad_enabled s'"
proof -
  from train_pass_quiet [OF assms(1,2,4,6,7)] obtain s1 where
    s1: "train_pass a be trn (nat (e - 1)) s = (None, s1)" "ticks s1 = None" "grad_enabled s1"
    by blast
  from valid_pass_quiet [OF assms(5) s1(2)] obtain s2 where
    s2: "valid_pass be vld (nat (e - 1)) s1 = (None, s2)" "ticks s2 = None"
      "grad_enabled s2 = grad_enabled s1"
    by blast
  from epoch_end_quiet [OF s2(2) assms(3)] obtain s3 where
    s3: "epoch_end a be e s2 = (None, s3)" "ticks s3 = None" "grad_enabled s3 = grad_enabled s2"
    by blast
  have "epoch a be trn vld e s = (None, s3)"
    using s1(1) s2(1) s3(1) by (simp add: epoch_def seq_def)
  then show ?thesis using s3(2,3) s2(3) s1(3) by simp
qed

lemma toy_epoch:
  "\<exists>s'. epoch toy_args toy_be toy_loader toy_loader 1 toy_state = (None, s')"
proof -
  have "\<exists>s'. epoch toy_args toy_be toy_loader toy_loader 1 toy_state = (None, s')
          \<and> ticks s' = None \<and> grad_enabled s'"
    by (rule epoch_quiet)
       (simp_all add: toy_has_layers toy_args_def toy_loader_def toy_state_def init_state_def)
  then show ?thesis by blast
qed

theorem checkpoint_iff_validation_improved_witness:
  "\<exists>s' s1 s2. epoch toy_args toy_be toy_loader toy_loader 1 toy_state = (None, s')
     \<and> best_loss toy_state = best_so_far (valid_losses toy_state)
     \<and> train_pass toy_args toy_be toy_loader (nat (1 - 1)) toy_state = (None, s1)
     \<and> valid_pass toy_be toy_loader (nat (1 - 1)) s1 = (None, s2)
     \<and> epoch_end toy_args toy_be 1 s2 = (None, s')
     \<and> valid_losses s' = valid_losses toy_state @ [valid_loss s2]
     \<and> best_loss s' = best_so_far (valid_losses s')"
proof -
  obtain s' where h: "epoch toy_args toy_be toy_loader toy_loader 1 toy_state = (None, s')"
    using toy_epoch by blast
  have b: "best_loss toy_state = best_so_far (valid_losses toy_state)"
    by (simp add: toy_state_def init_state_def best_so_far_def)
  from checkpoint_iff_validation_improved [OF h b] h b show ?thesis by blast
qed

end
